theory Spec2Isabelle
  imports Complex_Main "HOL-Library.Word" "HOL-Library.Sublist"
begin

section \<open>JavaScript values\<close>

text \<open>
  The program is a GitHub action written in TypeScript (\<^verbatim>\<open>src/main.ts\<close>; two further revisions of the same
  file are kept in \<^verbatim>\<open>unnamed/part_000\<close>). Its strings are sequences of UTF-16 code units:
  \<^verbatim>\<open>length\<close>, \<^verbatim>\<open>slice\<close>, \<^verbatim>\<open>indexOf\<close> and \<^verbatim>\<open>trim\<close> all count code units, so a string is a
  list of 16-bit words. \<open>ascii\<close> writes a literal whose characters are all ASCII.
\<close>

type_synonym jsstring = "16 word list"

definition ascii :: "string \<Rightarrow> jsstring" where
  "ascii s = map (\<lambda>c. of_nat (of_char c)) s"

text \<open>
  \<^verbatim>\<open>String.prototype.trim\<close> removes the code units of WhiteSpace and LineTerminator
  (ECMA-262) from both ends.
\<close>

definition isWhiteSpace :: "16 word \<Rightarrow> bool" where
  "isWhiteSpace c \<longleftrightarrow>
     c \<in> set [0x09, 0x0A, 0x0B, 0x0C, 0x0D, 0x20, 0xA0, 0x1680, 0x2028, 0x2029,
              0x202F, 0x205F, 0x3000, 0xFEFF]
     \<or> (0x2000 \<le> c \<and> c \<le> 0x200A)"

definition trim :: "jsstring \<Rightarrow> jsstring" where
  "trim s = rev (dropWhile isWhiteSpace (rev (dropWhile isWhiteSpace s)))"

text \<open>
  A JavaScript number is \<open>NaN\<close>, an infinity, or a finite value. \<open>Finite r\<close> stands for the
  double nearest to the rational \<open>r\<close>. \<open>double_of r\<close> is the number a numeric literal of
  exact value \<open>r\<close> denotes: an infinity when \<open>r\<close> rounds beyond the largest double, that
  is from \<open>2 ^ 1024 - 2 ^ 970\<close> on, half way between the largest double and \<open>2 ^ 1024\<close>.
  The rounding of a finite value is not carried out: equal rationals round to equal
  doubles, and whether a value rounds to zero, which decides whether the number is
  falsy, is the test \<open>isZero\<close> (a magnitude of at most half the smallest positive
  double).
\<close>

datatype jsnumber = NaN | PosInf | NegInf | Finite rat

definition double_of :: "rat \<Rightarrow> jsnumber" where
  "double_of r =
     (if 2 ^ 1024 - 2 ^ 970 \<le> r then PosInf
      else if r \<le> - (2 ^ 1024 - 2 ^ 970) then NegInf
      else Finite r)"

definition isZero :: "rat \<Rightarrow> bool" where
  "isZero r \<longleftrightarrow> \<bar>r\<bar> \<le> 1 / 2 ^ 1075"

text \<open>The values \<^verbatim>\<open>JSON.parse\<close> returns. An object keeps its members in source order.\<close>

datatype json =
    JNull
  | JBool bool
  | JNumber jsnumber
  | JString jsstring
  | JArray "json list"
  | JObject "(jsstring \<times> json) list"

text \<open>A value read from a variable or a property: \<open>None\<close> is \<^verbatim>\<open>undefined\<close>.\<close>

type_synonym jsvalue = "json option"

datatype error = TypeError | SyntaxError | RequestError

text \<open>
  \<open>truthy\<close> is ToBoolean: what \<^verbatim>\<open>if (x)\<close>, \<^verbatim>\<open>!x\<close> and \<^verbatim>\<open>x || y\<close> test.
\<close>

fun truthy :: "json \<Rightarrow> bool" where
  "truthy JNull = False"
| "truthy (JBool b) = b"
| "truthy (JNumber NaN) = False"
| "truthy (JNumber (Finite r)) = (\<not> isZero r)"
| "truthy (JNumber PosInf) = True"
| "truthy (JNumber NegInf) = True"
| "truthy (JString s) = (s \<noteq> [])"
| "truthy (JArray xs) = True"
| "truthy (JObject kvs) = True"

text \<open>
  \<open>get v k\<close> reads the property \<open>k\<close> of a parsed JSON value, for the three keys the
  program reads (\<^verbatim>\<open>reviews\<close>, \<^verbatim>\<open>lineNumber\<close>, \<^verbatim>\<open>reviewComment\<close>): none of them is a
  built-in property of a string, an array, a number or a boolean, so only an object can
  hold one, and a repeated key keeps its last value. Reading a property of \<^verbatim>\<open>null\<close>
  throws a TypeError.
\<close>

fun get :: "json \<Rightarrow> jsstring \<Rightarrow> error + jsvalue" where
  "get JNull k = Inl TypeError"
| "get (JObject kvs) k = Inr (map_of (rev kvs) k)"
| "get v k = Inr None"

section \<open>JSON.parse\<close>

text \<open>
  \<^verbatim>\<open>JSON.parse\<close> is a recursive-descent reading of the JSON grammar (ECMA-404): insignificant
  white space is space, tab, line feed and carriage return; a string holds no raw
  control character, and a backslash in it starts one of the nine escapes (quote,
  backslash, slash, b, f, n, r, t, and u with four hexadecimal digits); a number is
  \<^verbatim>\<open>-? (0 | [1-9][0-9]*) (. [0-9]+)? ([eE] [+-]? [0-9]+)?\<close>. A text that is not one JSON
  value throws a SyntaxError: the result \<open>None\<close>.
\<close>

definition isJsonWs :: "16 word \<Rightarrow> bool" where
  "isJsonWs c \<longleftrightarrow> c = 0x20 \<or> c = 0x09 \<or> c = 0x0A \<or> c = 0x0D"

definition skip_ws :: "jsstring \<Rightarrow> jsstring" where
  "skip_ws cs = dropWhile isJsonWs cs"

definition isDigit :: "16 word \<Rightarrow> bool" where
  "isDigit c \<longleftrightarrow> 0x30 \<le> c \<and> c \<le> 0x39"

definition digits_val :: "nat \<Rightarrow> nat list \<Rightarrow> nat" where
  "digits_val base ds = foldl (\<lambda>n d. base * n + d) 0 ds"

definition decimal_val :: "jsstring \<Rightarrow> nat" where
  "decimal_val ds = digits_val 10 (map (\<lambda>c. unat c - 48) ds)"

definition hex_val :: "16 word \<Rightarrow> nat option" where
  "hex_val c =
     (if isDigit c then Some (unat c - 48)
      else if 0x41 \<le> c \<and> c \<le> 0x46 then Some (unat c - 55)
      else if 0x61 \<le> c \<and> c \<le> 0x66 then Some (unat c - 87)
      else None)"

definition unescape :: "16 word \<Rightarrow> 16 word option" where
  "unescape e =
     (if e = 0x22 \<or> e = 0x5C \<or> e = 0x2F then Some e
      else if e = 0x62 then Some 0x08
      else if e = 0x66 then Some 0x0C
      else if e = 0x6E then Some 0x0A
      else if e = 0x72 then Some 0x0D
      else if e = 0x74 then Some 0x09
      else None)"

text \<open>\<open>parse_string acc cs\<close> reads a string's characters after its opening quote.\<close>

fun parse_string :: "jsstring \<Rightarrow> jsstring \<Rightarrow> (jsstring \<times> jsstring) option" where
  "parse_string acc [] = None"
| "parse_string acc (c # cs) =
     (if c = 0x22 then Some (acc, cs)
      else if c = 0x5C then
        (case cs of
           [] \<Rightarrow> None
         | e # es \<Rightarrow>
             if e = 0x75 then
               (case es of
                  h1 # h2 # h3 # h4 # rest \<Rightarrow>
                    (case (hex_val h1, hex_val h2, hex_val h3, hex_val h4) of
                       (Some a, Some b, Some c, Some d) \<Rightarrow>
                         parse_string (acc @ [of_nat (((a * 16 + b) * 16 + c) * 16 + d)]) rest
                     | _ \<Rightarrow> None)
                | _ \<Rightarrow> None)
             else
               (case unescape e of
                  Some u \<Rightarrow> parse_string (acc @ [u]) es
                | None \<Rightarrow> None))
      else if c < 0x20 then None
      else parse_string (acc @ [c]) cs)"

text \<open>
  The parts of a number after its integer digits: an optional sign, an optional
  fraction (a point and its digits) and an optional exponent (\<^verbatim>\<open>e\<close> or \<^verbatim>\<open>E\<close>, a sign, its
  digits), each returned with the text that follows it.
\<close>

definition number_sign :: "jsstring \<Rightarrow> bool \<times> jsstring" where
  "number_sign cs =
     (case cs of
        [] \<Rightarrow> (False, cs)
      | c # r \<Rightarrow> if c = 0x2D then (True, r) else (False, cs))"

definition number_fraction :: "jsstring \<Rightarrow> bool \<times> jsstring \<times> jsstring" where
  "number_fraction cs =
     (case cs of
        [] \<Rightarrow> (False, [], cs)
      | c # r \<Rightarrow>
          if c = 0x2E then (True, takeWhile isDigit r, dropWhile isDigit r)
          else (False, [], cs))"

definition number_exponent :: "jsstring \<Rightarrow> bool \<times> bool \<times> jsstring \<times> jsstring" where
  "number_exponent cs =
     (case cs of
        [] \<Rightarrow> (False, False, [], cs)
      | c # r \<Rightarrow>
          if c = 0x65 \<or> c = 0x45 then
            (case r of
               [] \<Rightarrow> (True, False, [], [])
             | s # r' \<Rightarrow>
                 if s = 0x2D then (True, True, takeWhile isDigit r', dropWhile isDigit r')
                 else if s = 0x2B then (True, False, takeWhile isDigit r', dropWhile isDigit r')
                 else (True, False, takeWhile isDigit r, dropWhile isDigit r))
          else (False, False, [], cs))"

definition number_value :: "bool \<Rightarrow> jsstring \<Rightarrow> jsstring \<Rightarrow> bool \<Rightarrow> jsstring \<Rightarrow> rat" where
  "number_value neg ip fp eneg ep =
     (let m = of_nat (decimal_val ip) + of_nat (decimal_val fp) / 10 ^ length fp;
          v = (if eneg then m / 10 ^ decimal_val ep else m * 10 ^ decimal_val ep)
      in if neg then - v else v)"

definition parse_number :: "jsstring \<Rightarrow> (jsnumber \<times> jsstring) option" where
  "parse_number cs =
     (case number_sign cs of (neg, r0) \<Rightarrow>
      case number_fraction (dropWhile isDigit r0) of (has_frac, fp, r2) \<Rightarrow>
      case number_exponent r2 of (has_exp, eneg, ep, r3) \<Rightarrow>
        let ip = takeWhile isDigit r0
        in if ip = [] \<or> (hd ip = 0x30 \<and> length ip > 1) then None
           else if has_frac \<and> fp = [] then None
           else if has_exp \<and> ep = [] then None
           else Some (double_of (number_value neg ip fp eneg ep), r3))"

text \<open>
  \<open>parse_value\<close> reads one value at the head of the text and returns it with the rest;
  \<open>parse_elements\<close> and \<open>parse_members\<close> read the rest of an array and of an object.
  A value always consumes a character, so the length tests on the recursive calls never
  fail (\<open>parse_value_consumes\<close> below): they state the termination argument.
\<close>

function parse_value :: "jsstring \<Rightarrow> (json \<times> jsstring) option"
  and parse_elements :: "json list \<Rightarrow> jsstring \<Rightarrow> (json \<times> jsstring) option"
  and parse_members :: "(jsstring \<times> json) list \<Rightarrow> jsstring \<Rightarrow> (json \<times> jsstring) option"
where
  "parse_value [] = None"
| "parse_value (c # cs) =
     (if c = 0x5B then
        (case skip_ws cs of
           [] \<Rightarrow> None
         | d # ds \<Rightarrow> if d = 0x5D then Some (JArray [], ds) else parse_elements [] (skip_ws cs))
      else if c = 0x7B then
        (case skip_ws cs of
           [] \<Rightarrow> None
         | d # ds \<Rightarrow> if d = 0x7D then Some (JObject [], ds) else parse_members [] (skip_ws cs))
      else if c = 0x22 then
        (case parse_string [] cs of
           None \<Rightarrow> None
         | Some (s, rest) \<Rightarrow> Some (JString s, rest))
      else if take 4 (c # cs) = [0x74, 0x72, 0x75, 0x65] then Some (JBool True, drop 4 (c # cs))
      else if take 5 (c # cs) = [0x66, 0x61, 0x6C, 0x73, 0x65] then Some (JBool False, drop 5 (c # cs))
      else if take 4 (c # cs) = [0x6E, 0x75, 0x6C, 0x6C] then Some (JNull, drop 4 (c # cs))
      else
        (case parse_number (c # cs) of
           None \<Rightarrow> None
         | Some (n, rest) \<Rightarrow> Some (JNumber n, rest)))"
| "parse_elements acc cs =
     (case parse_value cs of
        None \<Rightarrow> None
      | Some (v, rest) \<Rightarrow>
          (case skip_ws rest of
             [] \<Rightarrow> None
           | d # ds \<Rightarrow>
               if d = 0x5D then Some (JArray (acc @ [v]), ds)
               else if d = 0x2C \<and> length (skip_ws ds) < length cs
                 then parse_elements (acc @ [v]) (skip_ws ds)
               else None))"
| "parse_members acc cs =
     (case cs of
        [] \<Rightarrow> None
      | q # qs \<Rightarrow>
          if q \<noteq> 0x22 then None
          else
            (case parse_string [] qs of
               None \<Rightarrow> None
             | Some (k, r1) \<Rightarrow>
                 (case skip_ws r1 of
                    [] \<Rightarrow> None
                  | colon # r2 \<Rightarrow>
                      if colon \<noteq> 0x3A \<or> \<not> length (skip_ws r2) < length cs then None
                      else
                        (case parse_value (skip_ws r2) of
                           None \<Rightarrow> None
                         | Some (v, r3) \<Rightarrow>
                             (case skip_ws r3 of
                                [] \<Rightarrow> None
                              | d # ds \<Rightarrow>
                                  if d = 0x7D then Some (JObject (acc @ [(k, v)]), ds)
                                  else if d = 0x2C \<and> length (skip_ws ds) < length cs
                                    then parse_members (acc @ [(k, v)]) (skip_ws ds)
                                  else None)))))"
  by pat_completeness auto
termination
  apply (relation "measure (\<lambda>x. case x of
          Inl cs \<Rightarrow> 2 * length cs
        | Inr (Inl (acc, cs)) \<Rightarrow> 2 * length cs + 1
        | Inr (Inr (acc, cs)) \<Rightarrow> 2 * length cs + 1)")
      apply simp
  subgoal for c cs d ds using length_dropWhile_le [of isJsonWs cs] by (simp add: skip_ws_def)
  subgoal for c cs d ds using length_dropWhile_le [of isJsonWs cs] by (simp add: skip_ws_def)
     apply simp_all
  done

definition JSON_parse :: "jsstring \<Rightarrow> json option" where
  "JSON_parse text =
     (case parse_value (skip_ws text) of
        None \<Rightarrow> None
      | Some (v, rest) \<Rightarrow> if skip_ws rest = [] then Some v else None)"

section \<open>Number\<close>

text \<open>
  \<^verbatim>\<open>Number(x)\<close> is ToNumber. On a string it is StringToNumber (ECMA-262): the text is
  trimmed; the empty text is 0; a text that is not a StringNumericLiteral is \<open>NaN\<close>. The
  literals are the unsigned hexadecimal, octal and binary integers (\<^verbatim>\<open>0x\<close>, \<^verbatim>\<open>0o\<close>, \<^verbatim>\<open>0b\<close>),
  and the signed decimals: \<^verbatim>\<open>Infinity\<close>, digits with an optional fraction, a fraction alone,
  each with an optional exponent.
\<close>

definition radix_literal :: "nat \<Rightarrow> jsstring \<Rightarrow> jsnumber" where
  "radix_literal base ds =
     (if ds \<noteq> [] \<and> list_all (\<lambda>c. case hex_val c of None \<Rightarrow> False | Some d \<Rightarrow> d < base) ds
      then double_of (of_nat (digits_val base
             (map (\<lambda>c. case hex_val c of None \<Rightarrow> 0 | Some d \<Rightarrow> d) ds)))
      else NaN)"

definition decimal_literal :: "jsstring \<Rightarrow> jsnumber" where
  "decimal_literal t =
     (let neg = (t \<noteq> [] \<and> hd t = 0x2D);
          u = (if t \<noteq> [] \<and> (hd t = 0x2D \<or> hd t = 0x2B) then tl t else t)
      in if u = [0x49, 0x6E, 0x66, 0x69, 0x6E, 0x69, 0x74, 0x79]
           then (if neg then NegInf else PosInf)
         else
           (case number_fraction (dropWhile isDigit u) of (has_dot, fp, r2) \<Rightarrow>
            case number_exponent r2 of (has_exp, eneg, ep, r3) \<Rightarrow>
              let ip = takeWhile isDigit u
              in if ip = [] \<and> fp = [] then NaN
                 else if has_exp \<and> ep = [] then NaN
                 else if r3 \<noteq> [] then NaN
                 else double_of (number_value neg ip fp eneg ep)))"

definition StringToNumber :: "jsstring \<Rightarrow> jsnumber" where
  "StringToNumber s =
     (let t = trim s
      in if t = [] then Finite 0
         else if take 2 t = [0x30, 0x78] \<or> take 2 t = [0x30, 0x58] then radix_literal 16 (drop 2 t)
         else if take 2 t = [0x30, 0x6F] \<or> take 2 t = [0x30, 0x4F] then radix_literal 8 (drop 2 t)
         else if take 2 t = [0x30, 0x62] \<or> take 2 t = [0x30, 0x42] then radix_literal 2 (drop 2 t)
         else decimal_literal t)"

text \<open>
  An object or an array converts through ToPrimitive, which calls its \<^verbatim>\<open>valueOf\<close> and then
  its \<^verbatim>\<open>toString\<close>, skipping one that is not callable. A member of a parsed object is an
  own property and never a function. So an object with a member \<^verbatim>\<open>toString\<close> has no
  callable \<^verbatim>\<open>toString\<close>, its \<^verbatim>\<open>valueOf\<close> (its own, not callable, or the inherited one, which
  returns the object) gives no primitive, and the conversion throws a TypeError; any
  other object gives the text \<^verbatim>\<open>[object Object]\<close>. The \<^verbatim>\<open>toString\<close> of an array joins the
  texts of its elements with commas, \<^verbatim>\<open>null\<close> as the empty text: it throws when the
  conversion of an element to a text does. \<open>toString_throws\<close> and \<open>join_throws\<close> say
  when.
\<close>

fun toString_throws :: "json \<Rightarrow> bool" and join_throws :: "json list \<Rightarrow> bool" where
  "toString_throws (JObject kvs) = (ascii ''toString'' \<in> set (map fst kvs))"
| "toString_throws (JArray xs) = join_throws xs"
| "toString_throws JNull = False"
| "toString_throws (JBool b) = False"
| "toString_throws (JNumber n) = False"
| "toString_throws (JString s) = False"
| "join_throws [] = False"
| "join_throws (x # xs) = (toString_throws x \<or> join_throws xs)"

text \<open>
  The number read from the joined text of an array whose conversion does not throw: no
  text with a comma is a numeric literal, the empty array gives the empty text, and a
  single element gives its own text, which for a number reads back as that number.
\<close>

fun joined_to_number :: "json list \<Rightarrow> jsnumber" where
  "joined_to_number [] = Finite 0"
| "joined_to_number [JNull] = Finite 0"
| "joined_to_number [JBool b] = NaN"
| "joined_to_number [JNumber n] = n"
| "joined_to_number [JString s] = StringToNumber s"
| "joined_to_number [JArray ys] = joined_to_number ys"
| "joined_to_number [JObject kvs] = NaN"
| "joined_to_number (x # y # zs) = NaN"

definition array_to_number :: "json list \<Rightarrow> error + jsnumber" where
  "array_to_number xs = (if join_throws xs then Inl TypeError else Inr (joined_to_number xs))"

fun Number :: "jsvalue \<Rightarrow> error + jsnumber" where
  "Number None = Inr NaN"
| "Number (Some JNull) = Inr (Finite 0)"
| "Number (Some (JBool b)) = Inr (Finite (if b then 1 else 0))"
| "Number (Some (JNumber n)) = Inr n"
| "Number (Some (JString s)) = Inr (StringToNumber s)"
| "Number (Some (JArray xs)) = array_to_number xs"
| "Number (Some (JObject kvs)) =
     (if toString_throws (JObject kvs) then Inl TypeError else Inr NaN)"

section \<open>The parsed diff and the pull request\<close>

text \<open>
  Modelled from the spec: the types \<^verbatim>\<open>File\<close>, \<^verbatim>\<open>Chunk\<close> and \<^verbatim>\<open>Change\<close> are declared by the
  parse-diff library, which is not part of the sources. A FileChange has an optional
  destination path and its hunks in order; a Hunk has its header text, its header
  numbers and its line changes; a line change is a context line (with its old and new
  line number), an addition or a deletion (each with one line number). The fields
  are named as \<^verbatim>\<open>main.ts\<close> reads them: \<^verbatim>\<open>file.to\<close>, \<^verbatim>\<open>file.chunks\<close>, \<^verbatim>\<open>chunk.content\<close>,
  \<^verbatim>\<open>chunk.changes\<close>, \<^verbatim>\<open>c.ln\<close>, \<^verbatim>\<open>c.ln2\<close>, \<^verbatim>\<open>c.content\<close>. An absent \<^verbatim>\<open>to\<close> is \<open>None\<close>.
\<close>

datatype Change =
    NormalChange nat nat jsstring
  | AddChange nat jsstring
  | DeleteChange nat jsstring

record Chunk =
  content :: jsstring
  changes :: "Change list"
  oldStart :: nat
  oldLines :: nat
  newStart :: nat
  newLines :: nat

record File =
  to :: "jsstring option"
  chunks :: "Chunk list"

record PRDetails =
  owner :: jsstring
  repo :: jsstring
  pull_number :: int
  title :: jsstring
  description :: jsstring

text \<open>The later revision in \<^verbatim>\<open>unnamed/part_000\<close> adds the pull request's page address.\<close>

record PRDetails_part_000 = PRDetails +
  url :: jsstring

record comment =
  body :: jsvalue
  path :: jsstring
  line :: jsnumber

section \<open>createPrompt\<close>

text \<open>The decimal digits of a line number or a count, as a template literal prints them.\<close>

fun show_nat :: "nat \<Rightarrow> jsstring" where
  "show_nat n =
     (if n < 10 then [of_nat (48 + n)]
      else show_nat (n div 10) @ [of_nat (48 + n mod 10)])"

fun join :: "jsstring \<Rightarrow> jsstring list \<Rightarrow> jsstring" where
  "join sep [] = []"
| "join sep [x] = x"
| "join sep (x # y # zs) = x @ sep @ join sep (y # zs)"

text \<open>
  \<^verbatim>\<open>${c.ln ? c.ln : c.ln2} ${c.content}\<close>: an addition or a deletion has \<^verbatim>\<open>ln\<close> and no
  \<^verbatim>\<open>ln2\<close>, a context line has \<^verbatim>\<open>ln2\<close> and no \<^verbatim>\<open>ln\<close>; 0 and \<^verbatim>\<open>undefined\<close> are falsy, and
  \<^verbatim>\<open>undefined\<close> prints as that word.
\<close>

fun change_line :: "Change \<Rightarrow> jsstring" where
  "change_line (NormalChange l1 l2 c) = show_nat l2 @ [0x20] @ c"
| "change_line (AddChange l c) =
     (if l \<noteq> 0 then show_nat l else ascii ''undefined'') @ [0x20] @ c"
| "change_line (DeleteChange l c) =
     (if l \<noteq> 0 then show_nat l else ascii ''undefined'') @ [0x20] @ c"

text \<open>
  The fixed text of the template up to the pull request's title, in UTF-16 code units
  (the reviewer's role, the tone and the review priorities in Korean, and the response
  format \<^verbatim>\<open>{"reviews": [{"lineNumber": <line_number>, "reviewComment": "<review comment>"}]}\<close>).
\<close>

definition prompt_head :: jsstring where
  "prompt_head =
    [
     0x0A, 0xB2F9, 0xC2E0, 0xC740, 0x20, 0xC2DC, 0xB2C8, 0xC5B4, 0x20, 0x69, 0x4F, 0x53, 0x20,
     0xAC1C, 0xBC1C, 0xC790, 0xC774, 0xC790, 0x20, 0xCF54, 0xB4DC, 0x20, 0xB9AC, 0xBDF0,
     0xC5B4, 0xC785, 0xB2C8, 0xB2E4, 0x2E, 0x0A, 0x0A, 0x23, 0x23, 0x20, 0xB9D0, 0xD22C, 0x20,
     0x2F, 0x20, 0xC2A4, 0xD0C0, 0xC77C, 0x20, 0x28, 0xC544, 0xC8FC, 0x20, 0xC911, 0xC694,
     0x29, 0x0A, 0x2D, 0x20, 0xB9AC, 0xBDF0, 0x20, 0xCF54, 0xBA58, 0xD2B8, 0xB294, 0x20, 0x2A,
     0x2A, 0xBC18, 0xB4DC, 0xC2DC, 0x20, 0xD55C, 0xAD6D, 0xC5B4, 0xB85C, 0x2A, 0x2A, 0x20,
     0xC791, 0xC131, 0xD569, 0xB2C8, 0xB2E4, 0x2E, 0x0A, 0x2D, 0x20, 0xD56D, 0xC0C1, 0x20,
     0x2A, 0x2A, 0xBD80, 0xB4DC, 0xB7FD, 0xACE0, 0x20, 0xCE5C, 0xC808, 0xD558, 0xACE0, 0x2C,
     0x20, 0xC57D, 0xAC04, 0x20, 0xC560, 0xAD50, 0x20, 0xC11E, 0xC778, 0x20, 0xB9D0, 0xD22C,
     0x2A, 0x2A, 0xB85C, 0x20, 0xC791, 0xC131, 0xD569, 0xB2C8, 0xB2E4, 0x2E, 0x0A, 0x2D, 0x20,
     0xBB38, 0xC7A5, 0x20, 0xB05D, 0xC5D0, 0xB294, 0x20, 0xC790, 0xC8FC, 0x20, 0x60, 0x7E,
     0xD588, 0xC5B4, 0xC6A9, 0x60, 0x2C, 0x20, 0x60, 0x7E, 0xC774, 0xC5D0, 0xC6A9, 0x60, 0x2C,
     0x20, 0x60, 0x7E, 0xAC19, 0xC544, 0xC6A9, 0x60, 0x20, 0xAC19, 0xC740, 0x20, 0xD45C,
     0xD604, 0xC744, 0x20, 0xC0AC, 0xC6A9, 0xD574, 0x20, 0xC8FC, 0xC138, 0xC694, 0x2E, 0x0A,
     0x2D, 0x20, 0xC801, 0xC808, 0xD788, 0x20, 0xD83D, 0xDE0A, 0x20, 0xD83D, 0xDC36, 0x20,
     0xD83D, 0xDCA1, 0x20, 0xAC19, 0xC740, 0x20, 0xC774, 0xBAA8, 0xD2F0, 0xCF58, 0xC744, 0x20,
     0xC11E, 0xC5B4, 0xC11C, 0x20, 0xC368, 0x20, 0xC8FC, 0xC138, 0xC694, 0x2E, 0x0A, 0x2D,
     0x20, 0xB108, 0xBB34, 0x20, 0xB531, 0xB531, 0xD55C, 0x20, 0xBB38, 0xC7A5, 0x28, 0x60,
     0xD569, 0xB2C8, 0xB2E4, 0x60, 0x2C, 0x20, 0x60, 0xC785, 0xB2C8, 0xB2E4, 0x60, 0xCCB4,
     0x29, 0xBCF4, 0xB2E4, 0xB294, 0x20, 0xB9D0, 0xB791, 0xD55C, 0x20, 0xC5B4, 0xD22C, 0xB97C,
     0x20, 0xC0AC, 0xC6A9, 0xD574, 0x20, 0xC8FC, 0xC138, 0xC694, 0x2E, 0x0A, 0x0A, 0x23, 0x23,
     0x20, 0xB9AC, 0xBDF0, 0x20, 0xAD00, 0xC810, 0x0A, 0x2D, 0x20, 0xC0AC, 0xC18C, 0xD55C,
     0x20, 0xC2A4, 0xD0C0, 0xC77C, 0x20, 0xC9C0, 0xC801, 0x28, 0xB744, 0xC5B4, 0xC4F0, 0xAE30,
     0x2C, 0x20, 0xB2E8, 0xC21C, 0x20, 0xB124, 0xC774, 0xBC0D, 0x20, 0xCDE8, 0xD5A5, 0x20,
     0xCC28, 0xC774, 0x29, 0xC740, 0x20, 0xC6EC, 0xB9CC, 0xD558, 0xBA74, 0x20, 0xD558, 0xC9C0,
     0x20, 0xC54A, 0xC2B5, 0xB2C8, 0xB2E4, 0x2E, 0x0A, 0x2D, 0x20, 0xB2E4, 0xC74C, 0x20,
     0xD56D, 0xBAA9, 0xC744, 0x20, 0xC6B0, 0xC120, 0xC801, 0xC73C, 0xB85C, 0x20, 0xBD05,
     0xB2C8, 0xB2E4, 0x3A, 0x0A, 0x20, 0x20, 0x2D, 0x20, 0xB3D9, 0xC2DC, 0xC131, 0x20, 0x2F,
     0x20, 0xC2A4, 0xB808, 0xB4DC, 0x20, 0xC548, 0xC804, 0xC131, 0x20, 0x28, 0x61, 0x73, 0x79,
     0x6E, 0x63, 0x2F, 0x61, 0x77, 0x61, 0x69, 0x74, 0x2C, 0x20, 0x54, 0x61, 0x73, 0x6B, 0x2C,
     0x20, 0x40, 0x4D, 0x61, 0x69, 0x6E, 0x41, 0x63, 0x74, 0x6F, 0x72, 0x2C, 0x20, 0xACF5,
     0xC720, 0x20, 0xC0C1, 0xD0DC, 0x2C, 0x20, 0x72, 0x61, 0x63, 0x65, 0x20, 0x63, 0x6F, 0x6E,
     0x64, 0x69, 0x74, 0x69, 0x6F, 0x6E, 0x20, 0xAC00, 0xB2A5, 0xC131, 0x29, 0x0A, 0x20, 0x20,
     0x2D, 0x20, 0xC544, 0xD0A4, 0xD14D, 0xCC98, 0x20, 0xBD84, 0xB9AC, 0x20, 0x28, 0x56, 0x69,
     0x65, 0x77, 0x20, 0x2F, 0x20, 0x56, 0x69, 0x65, 0x77, 0x4D, 0x6F, 0x64, 0x65, 0x6C, 0x20,
     0x2F, 0x20, 0x55, 0x73, 0x65, 0x43, 0x61, 0x73, 0x65, 0x20, 0x2F, 0x20, 0x52, 0x65, 0x70,
     0x6F, 0x73, 0x69, 0x74, 0x6F, 0x72, 0x79, 0x20, 0x2F, 0x20, 0x44, 0x61, 0x74, 0x61, 0x53,
     0x6F, 0x75, 0x72, 0x63, 0x65, 0x20, 0xCC45, 0xC784, 0xC774, 0x20, 0xC11E, 0xC5EC, 0x20,
     0xC788, 0xC9C0, 0x20, 0xC54A, 0xC740, 0xC9C0, 0x29, 0x0A, 0x20, 0x20, 0x2D, 0x20, 0xD14C,
     0xC2A4, 0xD2B8, 0x20, 0xC6A9, 0xC774, 0xC131, 0x2C, 0x20, 0xC758, 0xC874, 0xC131, 0x20,
     0xC8FC, 0xC785, 0x20, 0xAD6C, 0xC870, 0x20, 0x28, 0xD504, 0xB85C, 0xD1A0, 0xCF5C, 0x2C,
     0x20, 0x44, 0x49, 0x2C, 0x20, 0xACB0, 0xD569, 0xB3C4, 0x29, 0x0A, 0x20, 0x20, 0x2D, 0x20,
     0xC5D0, 0xB7EC, 0x20, 0xCC98, 0xB9AC, 0x2C, 0x20, 0xC635, 0xC154, 0xB110, 0x20, 0xCC98,
     0xB9AC, 0x2C, 0x20, 0xD06C, 0xB798, 0xC2DC, 0x20, 0xAC00, 0xB2A5, 0xC131, 0x0A, 0x20,
     0x20, 0x2D, 0x20, 0xC131, 0xB2A5, 0xC5D0, 0x20, 0xD070, 0x20, 0xC601, 0xD5A5, 0xC744,
     0x20, 0xC904, 0x20, 0xC218, 0x20, 0xC788, 0xB294, 0x20, 0xBD80, 0xBD84, 0x20, 0x28,
     0xBD88, 0xD544, 0xC694, 0xD55C, 0x20, 0xC5F0, 0xC0B0, 0x2C, 0x20, 0xC911, 0xBCF5, 0x20,
     0xD638, 0xCD9C, 0x20, 0xB4F1, 0x29, 0x0A, 0x0A, 0x23, 0x23, 0x20, 0x4F, 0x75, 0x74, 0x70,
     0x75, 0x74, 0x20, 0x66, 0x6F, 0x72, 0x6D, 0x61, 0x74, 0x20, 0x28, 0x56, 0x45, 0x52, 0x59,
     0x20, 0x49, 0x4D, 0x50, 0x4F, 0x52, 0x54, 0x41, 0x4E, 0x54, 0x29, 0x0A, 0x2D, 0x20,
     0xC751, 0xB2F5, 0xC740, 0x20, 0x2A, 0x2A, 0xBC18, 0xB4DC, 0xC2DC, 0x20, 0xC544, 0xB798,
     0x20, 0x4A, 0x53, 0x4F, 0x4E, 0x20, 0xD615, 0xC2DD, 0x20, 0xADF8, 0xB300, 0xB85C, 0x2A,
     0x2A, 0x20, 0xBC18, 0xD658, 0xD574, 0xC57C, 0x20, 0xD569, 0xB2C8, 0xB2E4, 0x2E, 0x0A,
     0x0A, 0x7B, 0x22, 0x72, 0x65, 0x76, 0x69, 0x65, 0x77, 0x73, 0x22, 0x3A, 0x20, 0x5B, 0x7B,
     0x22, 0x6C, 0x69, 0x6E, 0x65, 0x4E, 0x75, 0x6D, 0x62, 0x65, 0x72, 0x22, 0x3A, 0x20, 0x20,
     0x3C, 0x6C, 0x69, 0x6E, 0x65, 0x5F, 0x6E, 0x75, 0x6D, 0x62, 0x65, 0x72, 0x3E, 0x2C, 0x20,
     0x22, 0x72, 0x65, 0x76, 0x69, 0x65, 0x77, 0x43, 0x6F, 0x6D, 0x6D, 0x65, 0x6E, 0x74, 0x22,
     0x3A, 0x20, 0x22, 0x3C, 0x72, 0x65, 0x76, 0x69, 0x65, 0x77, 0x20, 0x63, 0x6F, 0x6D, 0x6D,
     0x65, 0x6E, 0x74, 0x3E, 0x22, 0x7D, 0x5D, 0x7D, 0x0A, 0x0A, 0x2D, 0x20, 0x60, 0x6C, 0x69,
     0x6E, 0x65, 0x4E, 0x75, 0x6D, 0x62, 0x65, 0x72, 0x60, 0x20, 0xB294, 0x20, 0xC544, 0xB798,
     0x20, 0x47, 0x69, 0x74, 0x20, 0x64, 0x69, 0x66, 0x66, 0xC5D0, 0xC11C, 0x20, 0xB9AC,
     0xBDF0, 0xD558, 0xACE0, 0x20, 0xC2F6, 0xC740, 0x20, 0x2A, 0x2A, 0xCF54, 0xB4DC, 0x20,
     0xB77C, 0xC778, 0x20, 0xBC88, 0xD638, 0x2A, 0x2A, 0xC785, 0xB2C8, 0xB2E4, 0x2E, 0x0A,
     0x2D, 0x20, 0x60, 0x72, 0x65, 0x76, 0x69, 0x65, 0x77, 0x43, 0x6F, 0x6D, 0x6D, 0x65, 0x6E,
     0x74, 0x60, 0x20, 0xC5D0, 0xB294, 0x20, 0x47, 0x69, 0x74, 0x48, 0x75, 0x62, 0x20, 0x4D,
     0x61, 0x72, 0x6B, 0x64, 0x6F, 0x77, 0x6E, 0x20, 0xD615, 0xC2DD, 0xC73C, 0xB85C, 0x20,
     0xCF54, 0xBA58, 0xD2B8, 0xB97C, 0x20, 0xC791, 0xC131, 0xD569, 0xB2C8, 0xB2E4, 0x2E, 0x0A,
     0x2D, 0x20, 0xAC1C, 0xC120, 0xD560, 0x20, 0xBD80, 0xBD84, 0xC774, 0x20, 0xC804, 0xD600,
     0x20, 0xC5C6, 0xB2E4, 0xBA74, 0x2C, 0x20, 0x60, 0x22, 0x72, 0x65, 0x76, 0x69, 0x65, 0x77,
     0x73, 0x22, 0x3A, 0x20, 0x5B, 0x5D, 0x60, 0x20, 0xB85C, 0x20, 0xBE48, 0x20, 0xBC30,
     0xC5F4, 0xC744, 0x20, 0xBC18, 0xD658, 0xD569, 0xB2C8, 0xB2E4, 0x2E, 0x0A, 0x2D, 0x20,
     0xCF54, 0xB4DC, 0xC5D0, 0x20, 0xC8FC, 0xC11D, 0xC744, 0x20, 0xCD94, 0xAC00, 0xD558,
     0xB77C, 0xACE0, 0x20, 0xC81C, 0xC548, 0xD558, 0xC9C0, 0x20, 0xC54A, 0xC2B5, 0xB2C8,
     0xB2E4, 0x2E, 0x0A, 0x2D, 0x20, 0xC751, 0xB2F5, 0xC740, 0x20, 0x2A, 0x2A, 0xCF54, 0xB4DC,
     0xBE14, 0xB7ED, 0x28, 0x60, 0x60, 0x60, 0x29, 0x20, 0xC5C6, 0xC774, 0x2A, 0x2A, 0x20,
     0xC21C, 0xC218, 0x20, 0x4A, 0x53, 0x4F, 0x4E, 0x20, 0xBB38, 0xC790, 0xC5F4, 0xB9CC, 0x20,
     0xBC18, 0xD658, 0xD558, 0xC138, 0xC694, 0x2E, 0x20, 0xB9E8, 0x20, 0xC55E, 0xACFC, 0x20,
     0xB9E8, 0x20, 0xB4A4, 0xC5D0, 0x20, 0xC544, 0xBB34, 0x20, 0xD14D, 0xC2A4, 0xD2B8, 0xB3C4,
     0x20, 0xCD94, 0xAC00, 0xD558, 0xC9C0, 0x20, 0xB9C8, 0xC138, 0xC694, 0x2E, 0x0A, 0x0A,
     0x23, 0x23, 0x20, 0x43, 0x6F, 0x6E, 0x74, 0x65, 0x78, 0x74, 0x0A, 0xC544, 0xB798, 0x20,
     0x50, 0x52, 0xC758, 0x20, 0xC81C, 0xBAA9, 0xACFC, 0x20, 0xC124, 0xBA85, 0xC740, 0x20,
     0x2A, 0x2A, 0xB9E5, 0xB77D, 0x20, 0xD30C, 0xC545, 0xC6A9, 0x2A, 0x2A, 0xC73C, 0xB85C,
     0xB9CC, 0x20, 0xC0AC, 0xC6A9, 0xD558, 0xACE0, 0x2C, 0x20, 0xC2E4, 0xC81C, 0x20, 0xCF54,
     0xBA58, 0xD2B8, 0xB294, 0x20, 0xBC18, 0xB4DC, 0xC2DC, 0x20, 0xCF54, 0xB4DC, 0x20, 0xBCC0,
     0xACBD, 0x20, 0xB0B4, 0xC6A9, 0x28, 0x64, 0x69, 0x66, 0x66, 0x29, 0xC744, 0x20, 0xAE30,
     0xC900, 0xC73C, 0xB85C, 0x20, 0xC791, 0xC131, 0xD558, 0xC138, 0xC694, 0x2E, 0x0A, 0x0A,
     0x50, 0x75, 0x6C, 0x6C, 0x20, 0x72, 0x65, 0x71, 0x75, 0x65, 0x73, 0x74, 0x20, 0x74, 0x69,
     0x74, 0x6C, 0x65, 0x3A, 0x20
    ]"

definition createPrompt :: "File \<Rightarrow> Chunk \<Rightarrow> 'a PRDetails_scheme \<Rightarrow> jsstring" where
  "createPrompt file chunk prDetails =
     prompt_head @ title prDetails
     @ ascii ''\<newline>Pull request description:\<newline>\<newline>---\<newline>'' @ description prDetails
     @ ascii ''\<newline>---\<newline>\<newline>## Git diff to review (file: \"''
     @ (case to file of None \<Rightarrow> ascii ''undefined'' | Some t \<Rightarrow> t)
     @ ascii ''\"):\<newline>\<newline>'' @ [0x60, 0x60, 0x60] @ ascii ''diff\<newline>''
     @ content chunk @ [0x0A]
     @ join [0x0A] (map change_line (changes chunk))
     @ [0x0A, 0x60, 0x60, 0x60, 0x0A]"

section \<open>getAIResponse\<close>

text \<open>
  What \<^verbatim>\<open>openai.chat.completions.create\<close> can do: reject (a network error, a status
  other than 200), resolve with no choice at all, or resolve with a first choice whose
  message content is a text or is absent. The client is a function of the prompt; the
  fixed parameters of the request (model, temperature 0.2, 700 tokens, JSON response
  format) are the client's.
\<close>

datatype completion = Rejected | NoChoices | Message "jsstring option"

text \<open>
  \<^verbatim>\<open>main.ts\<close>, lines 136 to 175. \<open>getAIResponse_try\<close> is the body of the \<^verbatim>\<open>try\<close> block, with
  what it throws as \<open>Inl\<close>: the request can be rejected;
  \<^verbatim>\<open>response.choices[0].message?.content?.trim() || "{}"\<close> throws when there is no first
  choice, and is \<^verbatim>\<open>"{}"\<close> when the content is absent or trims to the empty text;
  \<^verbatim>\<open>JSON.parse\<close> throws on a text that is not JSON; \<^verbatim>\<open>parsed.reviews || []\<close> throws when
  \<^verbatim>\<open>parsed\<close> is \<^verbatim>\<open>null\<close>. The \<^verbatim>\<open>catch\<close> block logs the error and returns \<^verbatim>\<open>null\<close>, which
  is \<open>None\<close>.
\<close>

definition content_or_braces :: "jsstring option \<Rightarrow> jsstring" where
  "content_or_braces c =
     (case c of
        None \<Rightarrow> ascii ''{}''
      | Some s \<Rightarrow> if trim s = [] then ascii ''{}'' else trim s)"

definition reviews_of :: "jsstring \<Rightarrow> error + json" where
  "reviews_of raw =
     (case JSON_parse raw of
        None \<Rightarrow> Inl SyntaxError
      | Some parsed \<Rightarrow>
          (case get parsed (ascii ''reviews'') of
             Inl e \<Rightarrow> Inl e
           | Inr None \<Rightarrow> Inr (JArray [])
           | Inr (Some reviews) \<Rightarrow> Inr (if truthy reviews then reviews else JArray [])))"

definition getAIResponse_try :: "(jsstring \<Rightarrow> completion) \<Rightarrow> jsstring \<Rightarrow> error + json" where
  "getAIResponse_try create prompt =
     (case create prompt of
        Rejected \<Rightarrow> Inl RequestError
      | NoChoices \<Rightarrow> Inl TypeError
      | Message c \<Rightarrow> reviews_of (content_or_braces c))"

definition getAIResponse :: "(jsstring \<Rightarrow> completion) \<Rightarrow> jsstring \<Rightarrow> json option" where
  "getAIResponse create prompt =
     (case getAIResponse_try create prompt of
        Inl e \<Rightarrow> None
      | Inr reviews \<Rightarrow> Some reviews)"

text \<open>
  The earlier revision, \<^verbatim>\<open>unnamed/part_000\<close> lines 138 to 191, cleans the text before it
  parses it. When the text starts with three backquotes, the opening fence
  \<^verbatim>\<open>/^```[a-zA-Z0-9]*\n/\<close> and a closing fence \<^verbatim>\<open>/```$/\<close> are removed and the text is trimmed
  again. Then, when the text has both a \<^verbatim>\<open>{\<close> and a \<^verbatim>\<open>}\<close>, it is cut to the span from the
  first \<^verbatim>\<open>{\<close> to the last \<^verbatim>\<open>}\<close>.
\<close>

definition isAlnum :: "16 word \<Rightarrow> bool" where
  "isAlnum c \<longleftrightarrow> (0x61 \<le> c \<and> c \<le> 0x7A) \<or> (0x41 \<le> c \<and> c \<le> 0x5A) \<or> isDigit c"

definition startsWith :: "jsstring \<Rightarrow> jsstring \<Rightarrow> bool" where
  "startsWith s p \<longleftrightarrow> take (length p) s = p"

definition strip_opening_fence :: "jsstring \<Rightarrow> jsstring" where
  "strip_opening_fence raw =
     (if startsWith raw [0x60, 0x60, 0x60] then
        (case dropWhile isAlnum (drop 3 raw) of
           [] \<Rightarrow> raw
         | c # rest \<Rightarrow> if c = 0x0A then rest else raw)
      else raw)"

definition strip_closing_fence :: "jsstring \<Rightarrow> jsstring" where
  "strip_closing_fence raw =
     (if 3 \<le> length raw \<and> drop (length raw - 3) raw = [0x60, 0x60, 0x60]
      then take (length raw - 3) raw
      else raw)"

fun indexOf :: "jsstring \<Rightarrow> 16 word \<Rightarrow> nat option" where
  "indexOf [] x = None"
| "indexOf (c # cs) x = (if c = x then Some 0 else map_option Suc (indexOf cs x))"

definition lastIndexOf :: "jsstring \<Rightarrow> 16 word \<Rightarrow> nat option" where
  "lastIndexOf s x = map_option (\<lambda>i. length s - 1 - i) (indexOf (rev s) x)"

definition slice :: "jsstring \<Rightarrow> nat \<Rightarrow> nat \<Rightarrow> jsstring" where
  "slice s start stop = take (stop - start) (drop start s)"

definition clean_part_000 :: "jsstring \<Rightarrow> jsstring" where
  "clean_part_000 raw0 =
     (let raw1 = (if startsWith raw0 [0x60, 0x60, 0x60]
                  then trim (strip_closing_fence (strip_opening_fence raw0))
                  else raw0)
      in case (indexOf raw1 0x7B, lastIndexOf raw1 0x7D) of
           (Some firstBrace, Some lastBrace) \<Rightarrow> slice raw1 firstBrace (lastBrace + 1)
         | _ \<Rightarrow> raw1)"

definition getAIResponse_part_000_try :: "(jsstring \<Rightarrow> completion) \<Rightarrow> jsstring \<Rightarrow> error + json" where
  "getAIResponse_part_000_try create prompt =
     (case create prompt of
        Rejected \<Rightarrow> Inl RequestError
      | NoChoices \<Rightarrow> Inl TypeError
      | Message c \<Rightarrow> reviews_of (clean_part_000 (content_or_braces c)))"

definition getAIResponse_part_000 :: "(jsstring \<Rightarrow> completion) \<Rightarrow> jsstring \<Rightarrow> json option" where
  "getAIResponse_part_000 create prompt =
     (case getAIResponse_part_000_try create prompt of
        Inl e \<Rightarrow> None
      | Inr reviews \<Rightarrow> Some reviews)"

section \<open>createComment\<close>

text \<open>
  \<^verbatim>\<open>main.ts\<close>, lines 178 to 196: \<^verbatim>\<open>aiResponses.flatMap\<close> with a callback that returns the empty
  array when \<^verbatim>\<open>file.to\<close> is falsy (absent or the empty text) and otherwise one record, whose
  line is \<^verbatim>\<open>Number(aiResponse.lineNumber)\<close>. The argument is whatever truthy value
  \<open>getAIResponse\<close> returned: only an array has \<^verbatim>\<open>flatMap\<close>, so on any other value the call
  throws a TypeError, as does reading a property of a \<^verbatim>\<open>null\<close> element, and \<^verbatim>\<open>Number\<close> on a
  line that has no primitive value.
\<close>

definition comment_of :: "File \<Rightarrow> json \<Rightarrow> error + comment list" where
  "comment_of file aiResponse =
     (case to file of
        None \<Rightarrow> Inr []
      | Some t \<Rightarrow>
          if t = [] then Inr []
          else
            (case (get aiResponse (ascii ''reviewComment''), get aiResponse (ascii ''lineNumber'')) of
               (Inr b, Inr l) \<Rightarrow>
                 (case Number l of
                    Inl e \<Rightarrow> Inl e
                  | Inr n \<Rightarrow> Inr [\<lparr>body = b, path = t, line = n\<rparr>])
             | _ \<Rightarrow> Inl TypeError))"

fun flatMap :: "('a \<Rightarrow> error + 'b list) \<Rightarrow> 'a list \<Rightarrow> error + 'b list" where
  "flatMap f [] = Inr []"
| "flatMap f (x # xs) =
     (case f x of
        Inl e \<Rightarrow> Inl e
      | Inr ys \<Rightarrow> (case flatMap f xs of Inl e \<Rightarrow> Inl e | Inr zs \<Rightarrow> Inr (ys @ zs)))"

definition createComment :: "File \<Rightarrow> Chunk \<Rightarrow> json \<Rightarrow> error + comment list" where
  "createComment file chunk aiResponses =
     (case aiResponses of
        JArray rs \<Rightarrow> flatMap (comment_of file) rs
      | _ \<Rightarrow> Inl TypeError)"

section \<open>analyzeCode\<close>

text \<open>
  \<^verbatim>\<open>main.ts\<close>, lines 61 to 81: for every file whose \<^verbatim>\<open>to\<close> is not exactly \<^verbatim>\<open>"/dev/null"\<close>, for
  every chunk, build the prompt, ask the model, and when the answer is truthy append the
  comments made from it (the test \<^verbatim>\<open>if (newComments)\<close> on the array \<open>createComment\<close> returned
  is always true). The model is outside the program: \<open>openai n\<close> is the client as it
  answers the call made after \<open>n\<close> earlier calls, so that any sequence of answers can be
  given. The state of the loops is the list of prompts sent so far and the comments
  collected so far; the result is the prompts sent, and the comments or the exception
  that ended the run.
\<close>

type_synonym model = "nat \<Rightarrow> jsstring \<Rightarrow> completion"

fun analyze_chunks ::
  "model \<Rightarrow> 'a PRDetails_scheme \<Rightarrow> File \<Rightarrow> Chunk list \<Rightarrow> jsstring list \<times> comment list
     \<Rightarrow> jsstring list \<times> (error + comment list)" where
  "analyze_chunks openai prDetails file [] (sent, comments) = (sent, Inr comments)"
| "analyze_chunks openai prDetails file (chunk # rest) (sent, comments) =
     (let prompt = createPrompt file chunk prDetails;
          aiResponse = getAIResponse (openai (length sent)) prompt
      in case aiResponse of
           None \<Rightarrow> analyze_chunks openai prDetails file rest (sent @ [prompt], comments)
         | Some r \<Rightarrow>
             if \<not> truthy r
               then analyze_chunks openai prDetails file rest (sent @ [prompt], comments)
             else
               (case createComment file chunk r of
                  Inl e \<Rightarrow> (sent @ [prompt], Inl e)
                | Inr newComments \<Rightarrow>
                    analyze_chunks openai prDetails file rest
                      (sent @ [prompt], comments @ newComments)))"

fun analyze_files ::
  "model \<Rightarrow> 'a PRDetails_scheme \<Rightarrow> File list \<Rightarrow> jsstring list \<times> comment list
     \<Rightarrow> jsstring list \<times> (error + comment list)" where
  "analyze_files openai prDetails [] (sent, comments) = (sent, Inr comments)"
| "analyze_files openai prDetails (file # rest) (sent, comments) =
     (if to file = Some (ascii ''/dev/null'')
        then analyze_files openai prDetails rest (sent, comments)
      else
        (case analyze_chunks openai prDetails file (chunks file) (sent, comments) of
           (sent', Inl e) \<Rightarrow> (sent', Inl e)
         | (sent', Inr comments') \<Rightarrow> analyze_files openai prDetails rest (sent', comments')))"

definition analyzeCode ::
  "model \<Rightarrow> File list \<Rightarrow> 'a PRDetails_scheme \<Rightarrow> jsstring list \<times> (error + comment list)" where
  "analyzeCode openai parsedDiff prDetails = analyze_files openai prDetails parsedDiff ([], [])"

section \<open>The review in encounter order\<close>

text \<open>
  The spec's statement of the orchestrator, to compare \<open>analyzeCode\<close> with: the hunks of
  the files that are not deleted, in file order and then hunk order; the comments of
  the hunk that gets the \<open>n\<close>-th model call; and their concatenation in that order, which
  ends at the first exception.
\<close>

definition hunks_in_order :: "File list \<Rightarrow> (File \<times> Chunk) list" where
  "hunks_in_order parsedDiff =
     concat (map (\<lambda>file. map (Pair file) (chunks file))
               (filter (\<lambda>file. to file \<noteq> Some (ascii ''/dev/null'')) parsedDiff))"

definition hunk_comments ::
  "model \<Rightarrow> 'a PRDetails_scheme \<Rightarrow> nat \<times> File \<times> Chunk \<Rightarrow> error + comment list" where
  "hunk_comments openai prDetails =
     (\<lambda>(n, file, chunk).
        case getAIResponse (openai n) (createPrompt file chunk prDetails) of
          None \<Rightarrow> Inr []
        | Some r \<Rightarrow> if truthy r then createComment file chunk r else Inr [])"

definition encounter_order ::
  "model \<Rightarrow> File list \<Rightarrow> 'a PRDetails_scheme \<Rightarrow> error + comment list" where
  "encounter_order openai parsedDiff prDetails =
     flatMap (hunk_comments openai prDetails) (enumerate 0 (hunks_in_order parsedDiff))"

section \<open>main\<close>

text \<open>
  What a run does to the outside: a chat completion request with a prompt, the creation
  of one review with the comments (\<^verbatim>\<open>createReviewComment\<close>, event \<^verbatim>\<open>COMMENT\<close>), and, in
  the revision with the chat notification, a post to the webhook.
\<close>

datatype block = Section jsstring

record payload =
  payload_text :: jsstring
  payload_blocks :: "block list"

datatype effect =
    ChatCompletion jsstring
  | CreateReview jsstring jsstring int "comment list"
  | SlackPost jsstring payload

text \<open>
  What a run reads from the outside: the result of \<^verbatim>\<open>getPRDetails\<close>, the \<^verbatim>\<open>action\<close> of the
  event, the diff of the pull request (\<^verbatim>\<open>getDiff\<close>) and of the two revisions
  (\<^verbatim>\<open>compareCommits\<close>, as a text), the libraries parse-diff and minimatch, the \<^verbatim>\<open>exclude\<close>
  input, the model, and whether the request that creates the review succeeds.
\<close>

record 'pr env =
  getPRDetails :: "error + 'pr"
  action :: jsvalue
  getDiff :: "error + jsstring option"
  compareCommits :: "error + jsstring"
  parseDiff :: "jsstring \<Rightarrow> File list"
  exclude :: jsstring
  minimatch :: "jsstring \<Rightarrow> jsstring \<Rightarrow> bool"
  openai :: model
  createReview :: "comment list \<Rightarrow> bool"

fun split :: "16 word \<Rightarrow> jsstring \<Rightarrow> jsstring list" where
  "split sep [] = [[]]"
| "split sep (c # cs) =
     (if c = sep then [] # split sep cs
      else (case split sep cs of [] \<Rightarrow> [[c]] | p # ps \<Rightarrow> (c # p) # ps))"

text \<open>
  The diff the run reviews: the full diff when the pull request was opened, the diff
  between the two head revisions when it was synchronized; no diff (\<open>Inr None\<close>) for any
  other event, for a \<^verbatim>\<open>null\<close> and for an empty diff, where \<^verbatim>\<open>main\<close> returns at once.
\<close>

definition fetch_diff :: "('pr, 'z) env_scheme \<Rightarrow> error + jsstring option" where
  "fetch_diff w =
     (if action w = Some (JString (ascii ''opened'')) then
        (case getDiff w of
           Inl e \<Rightarrow> Inl e
         | Inr None \<Rightarrow> Inr None
         | Inr (Some d) \<Rightarrow> if d = [] then Inr None else Inr (Some d))
      else if action w = Some (JString (ascii ''synchronize'')) then
        (case compareCommits w of
           Inl e \<Rightarrow> Inl e
         | Inr d \<Rightarrow> if d = [] then Inr None else Inr (Some d))
      else Inr None)"

definition filteredDiff :: "('pr, 'z) env_scheme \<Rightarrow> jsstring \<Rightarrow> File list" where
  "filteredDiff w diff =
     (let parsedDiff = parseDiff w diff;
          excludePatterns = map trim (split 0x2C (exclude w))
      in filter
           (\<lambda>file. \<not> list_ex
              (\<lambda>pattern. minimatch w (case to file of None \<Rightarrow> [] | Some t \<Rightarrow> t) pattern)
              excludePatterns)
           parsedDiff)"

text \<open>
  \<^verbatim>\<open>main.ts\<close>, lines 213 to 273. The result is what the run did, in order, and the error
  it was rejected with, if any (\<^verbatim>\<open>main().catch\<close> then exits with status 1).
\<close>

definition main :: "PRDetails env \<Rightarrow> effect list \<times> error option" where
  "main w =
     (case getPRDetails w of
        Inl e \<Rightarrow> ([], Some e)
      | Inr prDetails \<Rightarrow>
          (case fetch_diff w of
             Inl e \<Rightarrow> ([], Some e)
           | Inr None \<Rightarrow> ([], None)
           | Inr (Some diff) \<Rightarrow>
               (case analyzeCode (openai w) (filteredDiff w diff) prDetails of
                  (sent, Inl e) \<Rightarrow> (map ChatCompletion sent, Some e)
                | (sent, Inr comments) \<Rightarrow>
                    if length comments > 0 then
                      (map ChatCompletion sent
                         @ [CreateReview (owner prDetails) (repo prDetails)
                              (pull_number prDetails) comments],
                       if createReview w comments then None else Some RequestError)
                    else (map ChatCompletion sent, None))))"

section \<open>notifySlack\<close>

text \<open>
  The environment of the revision with the notification: the \<^verbatim>\<open>SLACK_WEBHOOK_URL\<close> input,
  whether \<^verbatim>\<open>postToSlack\<close> resolves, and the text JavaScript prints for a number in a template
  literal (the shortest decimal that reads back as the same double, which is not
  modelled here).
\<close>

record 'pr env_part_000 = "'pr env" +
  SLACK_WEBHOOK_URL :: jsstring
  postToSlack :: "jsstring \<Rightarrow> payload \<Rightarrow> bool"
  numberToString :: "jsnumber \<Rightarrow> jsstring"

text \<open>\<^verbatim>\<open>unnamed/part_000\<close>, lines 515 to 518.\<close>

definition truncate :: "jsstring \<Rightarrow> nat \<Rightarrow> jsstring" where
  "truncate text maxLength =
     (if length text \<le> maxLength then text else take maxLength text @ ascii ''...'')"

text \<open>
  One line of the summary: \<^verbatim>\<open>c.body.replace(/\n/g, " ")\<close> throws a TypeError unless the body
  is a string; the line is a bullet, the path and the line in backquotes, a dash, and
  \<^verbatim>\<open>truncate(oneLineBody, 200)\<close>.
\<close>

definition oneLineBody :: "jsstring \<Rightarrow> jsstring" where
  "oneLineBody b = map (\<lambda>u. if u = 0x0A then 0x20 else u) b"

definition summary_line :: "(jsnumber \<Rightarrow> jsstring) \<Rightarrow> comment \<Rightarrow> error + jsstring list" where
  "summary_line toString c =
     (case body c of
        Some (JString b) \<Rightarrow>
          Inr [[0x2022, 0x20, 0x60] @ path c @ [0x3A] @ toString (line c)
               @ [0x60, 0x20, 0x2014, 0x20] @ truncate (oneLineBody b) 200]
      | _ \<Rightarrow> Inl TypeError)"

text \<open>
  The two base texts, in Korean in the source: for no comment, that there was nothing in
  particular to point out in this pull request; otherwise, that so many review comments
  were made for it, the count between asterisks, and that some of them follow.
\<close>

definition baseText :: "comment list \<Rightarrow> jsstring" where
  "baseText comments =
     (if length comments = 0 then
        [0xC774, 0xBC88, 0x20, 0x50, 0x52, 0xC5D0, 0xC11C, 0xB294, 0x20, 0xD2B9, 0xBCC4, 0xD788,
         0x20, 0xC9C0, 0xC801, 0xD560, 0x20, 0xBD80, 0xBD84, 0xC740, 0x20, 0xC5C6, 0xC5C8, 0xC5B4,
         0xC6A9, 0x20, 0xD83D, 0xDE0A]
      else
        [0xC774, 0xBC88, 0x20, 0x50, 0x52, 0xC5D0, 0x20, 0xB300, 0xD574, 0x20, 0x2A]
        @ show_nat (length comments)
        @ [0xAC1C, 0x2A, 0xC758, 0x20, 0xB9AC, 0xBDF0, 0x20, 0xCF54, 0xBA58, 0xD2B8, 0xAC00, 0x20,
           0xC0DD, 0xC131, 0xB418, 0xC5C8, 0xC5B4, 0xC6A9, 0x2E, 0x20, 0xC8FC, 0xC694, 0x20, 0xB0B4,
           0xC6A9, 0x20, 0xC77C, 0xBD80, 0xB9CC, 0x20, 0xC815, 0xB9AC, 0xD574, 0x20, 0xB4DC, 0xB9B4,
           0xAC8C, 0xC694, 0x20, 0xD83D, 0xDC36])"

text \<open>
  The payload: a fallback text, a section with a heading and the link
  \<^verbatim>\<open><url|title>\<close> to the pull request, and a section with the summary.
\<close>

definition slack_payload :: "'a PRDetails_part_000_scheme \<Rightarrow> jsstring \<Rightarrow> payload" where
  "slack_payload prDetails slackText =
     \<lparr>payload_text = [0x41, 0x49, 0x20, 0xCF54, 0xB4DC, 0x20, 0xB9AC, 0xBDF0, 0x20, 0xACB0, 0xACFC],
      payload_blocks =
        [Section
           ([0x2A, 0x41, 0x49, 0x20, 0xCF54, 0xB4DC, 0x20, 0xB9AC, 0xBDF0, 0x20, 0xACB0, 0xACFC,
             0xC5D0, 0xC694, 0x20, 0xD83E, 0xDDC1, 0x2A, 0x0A, 0x2A, 0x50, 0x52, 0x3A, 0x2A, 0x20, 0x3C]
            @ url prDetails @ [0x7C] @ title prDetails @ [0x3E]),
         Section slackText]\<rparr>"

text \<open>
  \<^verbatim>\<open>unnamed/part_000\<close>, lines 555 to 598. \<open>slackText\<close> is the text of the second section:
  the base text, an empty line, and the summary lines of the first five comments.
  Nothing is posted when the webhook input is the empty text.
\<close>

definition slackText :: "(jsnumber \<Rightarrow> jsstring) \<Rightarrow> comment list \<Rightarrow> error + jsstring" where
  "slackText toString comments =
     (let maxItems = 5 in
      case flatMap (summary_line toString) (take maxItems comments) of
        Inl e \<Rightarrow> Inl e
      | Inr summarized \<Rightarrow> Inr (join [0x0A] ([baseText comments, []] @ summarized)))"

definition notifySlack ::
  "('pr, 'z) env_part_000_scheme \<Rightarrow> 'a PRDetails_part_000_scheme \<Rightarrow> comment list
     \<Rightarrow> effect list \<times> error option" where
  "notifySlack w prDetails comments =
     (if SLACK_WEBHOOK_URL w = [] then ([], None)
      else
        (case slackText (numberToString w) comments of
           Inl e \<Rightarrow> ([], Some e)
         | Inr t \<Rightarrow>
             ([SlackPost (SLACK_WEBHOOK_URL w) (slack_payload prDetails t)],
              if postToSlack w (SLACK_WEBHOOK_URL w) (slack_payload prDetails t)
              then None else Some RequestError)))"


section \<open>Wrapped payloads\<close>

text \<open>
  \<open>wrapped mid s\<close>: the text \<open>s\<close> is the braced text \<^verbatim>\<open>{\<close>\<open>mid\<close>\<^verbatim>\<open>}\<close> with something before it
  that has no \<^verbatim>\<open>{\<close> and something after it that has no \<^verbatim>\<open>}\<close>.
\<close>

definition wrapped :: "jsstring \<Rightarrow> jsstring \<Rightarrow> bool" where
  "wrapped mid s \<longleftrightarrow>
     (\<exists>a b. s = a @ 0x7B # mid @ 0x7D # b \<and> 0x7B \<notin> set a \<and> 0x7D \<notin> set b)"

section \<open>Example inputs\<close>

text \<open>
  Concrete inputs on which the theorems below are instantiated: one hunk that adds the
  lines 10 to 12, a file with that hunk twice, a deleted file, a file with no destination
  path, and the answer of the spec's first scenario.
\<close>

definition example_chunk :: Chunk where
  "example_chunk =
     \<lparr>content = ascii ''@@ -9,0 +10,3 @@'',
      changes = [AddChange 10 (ascii ''+let a = b!''),
                 AddChange 11 (ascii ''+let c = d!''),
                 AddChange 12 (ascii ''+use(a, c)'')],
      oldStart = 9, oldLines = 0, newStart = 10, newLines = 3\<rparr>"

definition example_file :: File where
  "example_file = \<lparr>to = Some (ascii ''App/Model.swift''), chunks = [example_chunk, example_chunk]\<rparr>"

definition deleted_file :: File where
  "deleted_file = \<lparr>to = Some (ascii ''/dev/null''), chunks = [example_chunk]\<rparr>"

definition pathless_file :: File where
  "pathless_file = \<lparr>to = None, chunks = [example_chunk]\<rparr>"

definition example_pr :: PRDetails where
  "example_pr =
     \<lparr>owner = ascii ''acme'', repo = ascii ''app'', pull_number = 7,
      title = ascii ''Unwrap safely'', description = ascii ''Removes two force unwraps.''\<rparr>"

definition example_answer :: jsstring where
  "example_answer =
     ascii ''{\"reviews\":[{\"lineNumber\":11,\"reviewComment\":\"use optional binding here\"}]}''"

definition example_comment :: comment where
  "example_comment =
     \<lparr>body = Some (JString (ascii ''use optional binding here'')),
      path = ascii ''App/Model.swift'', line = Finite 11\<rparr>"

text \<open>A model that always gives the example answer, and the two models of a run in which
  the second call fails and of a run in which it finds nothing.\<close>

definition steady_model :: model where
  "steady_model = (\<lambda>n p. Message (Some example_answer))"

definition failing_model :: model where
  "failing_model = (\<lambda>n p. if n = 1 then Rejected else Message (Some example_answer))"

definition silent_model :: model where
  "silent_model =
     (\<lambda>n p. if n = 1 then Message (Some (ascii ''{\"reviews\":[]}''))
            else Message (Some example_answer))"

text \<open>
  A finding whose line is not a number, the environment of a run on an opened pull
  request whose model finds nothing, and the same for the revision with the
  notification, with a webhook and a printer for whole numbers.
\<close>

definition unnumbered_finding :: json where
  "unnumbered_finding =
     JObject [(ascii ''lineNumber'', JString (ascii ''abc'')),
              (ascii ''reviewComment'', JString (ascii ''use optional binding here''))]"

definition unconvertible_finding :: json where
  "unconvertible_finding =
     JObject [(ascii ''lineNumber'', JObject [(ascii ''toString'', JNumber (Finite 1))]),
              (ascii ''reviewComment'', JString (ascii ''use optional binding here''))]"

definition quiet_env :: "PRDetails env" where
  "quiet_env =
     \<lparr>getPRDetails = Inr example_pr,
      action = Some (JString (ascii ''opened'')),
      getDiff = Inr (Some (ascii ''diff --git a/App/Model.swift b/App/Model.swift'')),
      compareCommits = Inl RequestError,
      parseDiff = (\<lambda>diff. [example_file]),
      exclude = [],
      minimatch = (\<lambda>p pattern. False),
      openai = (\<lambda>n p. Message (Some (ascii ''{\"reviews\":[]}''))),
      createReview = (\<lambda>comments. True)\<rparr>"

definition example_pr_part_000 :: PRDetails_part_000 where
  "example_pr_part_000 =
     \<lparr>owner = ascii ''acme'', repo = ascii ''app'', pull_number = 7,
      title = ascii ''Unwrap safely'', description = ascii ''Removes two force unwraps.'',
      url = ascii ''https://github.com/acme/app/pull/7''\<rparr>"

definition show_whole :: "jsnumber \<Rightarrow> jsstring" where
  "show_whole n =
     (case n of
        NaN \<Rightarrow> ascii ''NaN''
      | PosInf \<Rightarrow> ascii ''Infinity''
      | NegInf \<Rightarrow> ascii ''-Infinity''
      | Finite r \<Rightarrow> (if r < 0 then [0x2D] else []) @ show_nat (nat \<lfloor>\<bar>r\<bar>\<rfloor>))"

definition quiet_env_part_000 :: "PRDetails_part_000 env_part_000" where
  "quiet_env_part_000 =
     \<lparr>getPRDetails = Inr example_pr_part_000,
      action = Some (JString (ascii ''opened'')),
      getDiff = Inr (Some (ascii ''diff --git a/App/Model.swift b/App/Model.swift'')),
      compareCommits = Inl RequestError,
      parseDiff = (\<lambda>diff. [example_file]),
      exclude = [],
      minimatch = (\<lambda>p pattern. False),
      openai = (\<lambda>n p. Message (Some (ascii ''{\"reviews\":[]}''))),
      createReview = (\<lambda>comments. True),
      SLACK_WEBHOOK_URL = ascii ''https://hooks.slack.com/services/T0/B0/x'',
      postToSlack = (\<lambda>u p. True),
      numberToString = show_whole\<rparr>"

text \<open>Six comments, the second with a body of 250 characters on two lines.\<close>

definition long_comment :: comment where
  "long_comment =
     \<lparr>body = Some (JString (replicate 100 0x61 @ [0x0A] @ replicate 149 0x62)),
      path = ascii ''App/Model.swift'', line = Finite 12\<rparr>"

definition six_comments :: "comment list" where
  "six_comments =
     [example_comment, long_comment, example_comment, example_comment, example_comment,
      example_comment]"

section \<open>The JSON reader consumes its input\<close>

text \<open>
  Every successful reader returns a proper suffix of its input, and the text of an
  object runs from a \<^verbatim>\<open>{\<close> to a \<^verbatim>\<open>}\<close>. So the length tests in \<open>parse_elements\<close> and
  \<open>parse_members\<close> hold whenever they are reached (the three lemmas on guards).
\<close>

declare parse_value.simps [simp del] parse_elements.simps [simp del] parse_members.simps [simp del]

lemma skip_ws_suffix: "suffix (skip_ws cs) cs"
  by (simp add: skip_ws_def suffix_dropWhile)

lemma skip_ws_Cons_suffix: "skip_ws cs = d # ds \<Longrightarrow> suffix ds cs"
  using skip_ws_suffix [of cs] by (auto dest: suffix_ConsD)

lemma parse_string_suffix:
  "parse_string acc cs = Some (s, rest) \<Longrightarrow> suffix rest cs \<and> length rest < length cs"
proof (induction cs arbitrary: acc s rest rule: length_induct)
  case (1 cs)
  note IH = 1(1) [rule_format] and run = 1(2)
  from run obtain c cs' where cs: "cs = c # cs'"
    by (cases cs) auto
  consider (quote) "c = 0x22"
    | (escape) "c \<noteq> 0x22" "c = 0x5C"
    | (plain) "c \<noteq> 0x22" "c \<noteq> 0x5C"
    by blast
  then show ?case
  proof cases
    case quote
    with run cs show ?thesis by (auto intro: suffix_ConsI)
  next
    case plain
    with run cs have "parse_string (acc @ [c]) cs' = Some (s, rest)"
      by (auto split: if_splits)
    from IH [OF _ this] cs show ?thesis
      by (auto intro: suffix_ConsI)
  next
    case escape
    with run cs obtain e es where cs': "cs' = e # es"
      by (cases cs') auto
    show ?thesis
    proof (cases "e = 0x75")
      case False
      with escape run cs cs' obtain u where
        "parse_string (acc @ [u]) es = Some (s, rest)"
        by (auto split: option.splits)
      from IH [OF _ this] cs cs' show ?thesis
        by (auto intro!: suffix_ConsI)
    next
      case True
      with escape run cs cs' obtain h1 h2 h3 h4 r w where
        es: "es = h1 # h2 # h3 # h4 # r"
        and "parse_string (acc @ [w]) r = Some (s, rest)"
        by (auto split: list.splits option.splits)
      from IH [OF _ this(2)] cs cs' es show ?thesis
        by (auto intro!: suffix_ConsI)
    qed
  qed
qed

lemma dropWhile_suffix_trans: "suffix xs (dropWhile P ys) \<Longrightarrow> suffix xs ys"
  using suffix_dropWhile suffix_order.trans by blast

lemma takeWhile_nonempty_length:
  "takeWhile P xs \<noteq> [] \<Longrightarrow> length (dropWhile P xs) < length xs"
  by (metis length_append length_greater_0_conv less_add_same_cancel2 takeWhile_dropWhile_id)

lemma number_sign_suffix: "number_sign cs = (neg, r) \<Longrightarrow> suffix r cs"
  by (auto simp: number_sign_def suffix_ConsI split: list.splits if_splits)

lemma number_fraction_suffix: "number_fraction cs = (has, fp, r) \<Longrightarrow> suffix r cs"
  by (auto simp: number_fraction_def suffix_ConsI suffix_dropWhile split: list.splits if_splits)

lemma number_exponent_suffix: "number_exponent cs = (has, eneg, ep, r) \<Longrightarrow> suffix r cs"
  by (auto simp: number_exponent_def suffix_ConsI suffix_dropWhile split: list.splits if_splits)

lemma parse_number_suffix:
  assumes "parse_number cs = Some (n, rest)"
  shows "suffix rest cs \<and> length rest < length cs"
proof -
  obtain neg r0 where sign: "number_sign cs = (neg, r0)"
    by (cases "number_sign cs")
  obtain has_frac fp r2 where frac: "number_fraction (dropWhile isDigit r0) = (has_frac, fp, r2)"
    by (cases "number_fraction (dropWhile isDigit r0)")
  obtain has_exp eneg ep r3 where expo: "number_exponent r2 = (has_exp, eneg, ep, r3)"
    by (cases "number_exponent r2")
  from assms sign frac expo have rest: "rest = r3" and ip: "takeWhile isDigit r0 \<noteq> []"
    by (auto simp: parse_number_def Let_def split: if_splits)
  have s0: "suffix r0 cs" by (rule number_sign_suffix [OF sign])
  have s2: "suffix r2 (dropWhile isDigit r0)" by (rule number_fraction_suffix [OF frac])
  have s3: "suffix r3 r2" by (rule number_exponent_suffix [OF expo])
  have "length (dropWhile isDigit r0) < length r0"
    by (rule takeWhile_nonempty_length [OF ip])
  moreover have "length r3 \<le> length (dropWhile isDigit r0)"
    using s3 s2 by (meson suffix_length_le suffix_order.trans)
  moreover have "length r0 \<le> length cs"
    using s0 by (rule suffix_length_le)
  moreover have "suffix r3 cs"
    using s3 s2 s0 by (meson dropWhile_suffix_trans suffix_order.trans)
  ultimately show ?thesis using rest by simp
qed

lemma skip_ws_Cons_split: "skip_ws cs = d # ds \<Longrightarrow> \<exists>ws. cs = ws @ d # ds"
  by (metis skip_ws_def takeWhile_dropWhile_id)

lemma suffix_shorter: "suffix xs ys \<Longrightarrow> length ys < n \<Longrightarrow> length xs < n"
  by (meson le_less_trans suffix_length_le)

lemma parser_consumes:
  "(\<forall>v rest. parse_value cs = Some (v, rest) \<longrightarrow>
       suffix rest cs \<and> length rest < length cs
       \<and> (\<forall>kvs. v = JObject kvs \<longrightarrow> (\<exists>mid. cs = 0x7B # mid @ 0x7D # rest)))
   \<and> (\<forall>acc v rest. parse_elements acc cs = Some (v, rest) \<longrightarrow>
       suffix rest cs \<and> length rest < length cs \<and> (\<exists>xs. v = JArray xs))
   \<and> (\<forall>acc v rest. parse_members acc cs = Some (v, rest) \<longrightarrow>
       suffix rest cs \<and> length rest < length cs \<and> (\<exists>kvs. v = JObject kvs)
       \<and> (\<exists>u. cs = u @ 0x7D # rest))"
proof (induction cs rule: length_induct)
  case (1 cs)
  note IH = 1 [rule_format]
  have IH_value: "suffix rest ys \<and> length rest < length ys"
    if "length ys < length cs" "parse_value ys = Some (v, rest)" for ys v rest
    using IH [OF that(1)] that(2) by blast
  have IH_elements: "suffix rest ys \<and> length rest < length ys \<and> (\<exists>xs. v = JArray xs)"
    if "length ys < length cs" "parse_elements acc ys = Some (v, rest)" for ys acc v rest
    using IH [OF that(1)] that(2) by blast
  have IH_members: "suffix rest ys \<and> length rest < length ys \<and> (\<exists>kvs. v = JObject kvs)
       \<and> (\<exists>u. ys = u @ 0x7D # rest)"
    if "length ys < length cs" "parse_members acc ys = Some (v, rest)" for ys acc v rest
    using IH [OF that(1)] that(2) by blast

  have V: "suffix rest cs \<and> length rest < length cs
       \<and> (\<forall>kvs. v = JObject kvs \<longrightarrow> (\<exists>mid. cs = 0x7B # mid @ 0x7D # rest))"
    if run: "parse_value cs = Some (v, rest)" for v rest
  proof -
    from run obtain c cs' where cs: "cs = c # cs'"
      by (cases cs) (auto simp: parse_value.simps)
    have shorter: "length (skip_ws cs') < length cs"
      using skip_ws_suffix [of cs'] cs by (auto dest: suffix_length_le)
    consider (array) "c = 0x5B" | (object) "c \<noteq> 0x5B" "c = 0x7B"
      | (string) "c \<noteq> 0x5B" "c \<noteq> 0x7B" "c = 0x22"
      | (other) "c \<noteq> 0x5B" "c \<noteq> 0x7B" "c \<noteq> 0x22"
      by blast
    then show ?thesis
    proof cases
      case array
      with run cs obtain d ds where ws: "skip_ws cs' = d # ds"
        by (cases "skip_ws cs'") (auto simp: parse_value.simps)
      show ?thesis
      proof (cases "d = 0x5D")
        case True
        with run cs array ws have "v = JArray []" "rest = ds"
          by (auto simp: parse_value.simps)
        with skip_ws_Cons_suffix [OF ws] cs show ?thesis
          by (auto intro: suffix_ConsI dest: suffix_length_le)
      next
        case False
        with run cs array ws have "parse_elements [] (skip_ws cs') = Some (v, rest)"
          by (auto simp: parse_value.simps)
        from IH_elements [OF shorter this] skip_ws_suffix [of cs'] cs shorter show ?thesis
          by (auto intro: suffix_ConsI suffix_order.trans)
      qed
    next
      case object
      with run cs obtain d ds where ws: "skip_ws cs' = d # ds"
        by (cases "skip_ws cs'") (auto simp: parse_value.simps)
      from skip_ws_Cons_split [OF ws] obtain sp where sp: "cs' = sp @ d # ds" by blast
      show ?thesis
      proof (cases "d = 0x7D")
        case True
        with run cs object ws have "v = JObject []" "rest = ds"
          by (auto simp: parse_value.simps)
        with skip_ws_Cons_suffix [OF ws] cs object sp True show ?thesis
          by (auto intro: suffix_ConsI dest: suffix_length_le)
      next
        case False
        with run cs object ws have m: "parse_members [] (skip_ws cs') = Some (v, rest)"
          by (auto simp: parse_value.simps)
        from IH_members [OF shorter m] obtain u where
          s: "suffix rest (skip_ws cs')" and u: "skip_ws cs' = u @ 0x7D # rest"
          by blast
        from u ws sp have "cs' = sp @ u @ 0x7D # rest" by simp
        with s skip_ws_suffix [of cs'] cs object shorter IH_members [OF shorter m] show ?thesis
          by (auto intro: suffix_ConsI suffix_order.trans)
      qed
    next
      case string
      with run cs obtain s where "parse_string [] cs' = Some (s, rest)" "v = JString s"
        by (auto simp: parse_value.simps split: option.splits)
      with parse_string_suffix [of "[]" cs' s rest] cs show ?thesis
        by (auto intro: suffix_ConsI)
    next
      case other
      with run cs consider
          (t) "v = JBool True" "rest = drop 4 cs" | (f) "v = JBool False" "rest = drop 5 cs"
        | (n) "v = JNull" "rest = drop 4 cs"
        | (num) k where "v = JNumber k" "parse_number cs = Some (k, rest)"
        by (auto simp: parse_value.simps split: if_splits option.splits)
      then show ?thesis
      proof cases
        case num
        with parse_number_suffix [of cs k rest] show ?thesis by simp
      qed (use cs in \<open>auto simp: suffix_drop intro: suffix_ConsI\<close>)
    qed
  qed

  have E: "suffix rest cs \<and> length rest < length cs \<and> (\<exists>xs. v = JArray xs)"
    if run: "parse_elements acc cs = Some (v, rest)" for acc v rest
  proof -
    from run obtain x r where x: "parse_value cs = Some (x, r)"
      by (auto simp: parse_elements.simps [of acc cs] split: option.splits)
    from V [OF x] have r: "suffix r cs" "length r < length cs" by simp_all
    from run x obtain d ds where ws: "skip_ws r = d # ds"
      by (cases "skip_ws r") (auto simp: parse_elements.simps [of acc cs])
    have ds: "suffix ds cs" "length ds < length cs"
      using skip_ws_Cons_suffix [OF ws] r
      by (auto intro: suffix_order.trans dest: suffix_length_le)
    show ?thesis
    proof (cases "d = 0x5D")
      case True
      with run x ws have "v = JArray (acc @ [x])" "rest = ds"
        by (auto simp: parse_elements.simps [of acc cs])
      with ds show ?thesis by simp
    next
      case False
      with run x ws have guard: "length (skip_ws ds) < length cs"
        and more: "parse_elements (acc @ [x]) (skip_ws ds) = Some (v, rest)"
        by (auto simp: parse_elements.simps [of acc cs] split: if_splits)
      from IH_elements [OF guard more] skip_ws_suffix [of ds] ds guard show ?thesis
        by (auto intro: suffix_order.trans)
    qed
  qed

  have M: "suffix rest cs \<and> length rest < length cs \<and> (\<exists>kvs. v = JObject kvs)
       \<and> (\<exists>u. cs = u @ 0x7D # rest)"
    if run: "parse_members acc cs = Some (v, rest)" for acc v rest
  proof -
    note run' = run [unfolded parse_members.simps [of acc cs]]
    from run' obtain q qs where cs: "cs = q # qs"
      by (cases cs) auto
    from run' cs have q: "q = 0x22"
      by (auto split: if_splits)
    from run' cs q obtain k r1 where k: "parse_string [] qs = Some (k, r1)"
      by (auto split: option.splits)
    from run' cs q k obtain colon r2 where ws1: "skip_ws r1 = colon # r2"
      by (cases "skip_ws r1") auto
    from run' cs q k ws1 have guard1: "length (skip_ws r2) < length cs"
      by (auto split: if_splits)
    from run' cs q k ws1 guard1 obtain x r3 where x: "parse_value (skip_ws r2) = Some (x, r3)"
      by (auto split: option.splits if_splits)
    from run' cs q k ws1 guard1 x obtain d ds where ws3: "skip_ws r3 = d # ds"
      by (cases "skip_ws r3") (auto split: if_splits)
    have s1: "suffix r1 cs"
      using parse_string_suffix [OF k] cs by (auto intro: suffix_ConsI)
    have s2: "suffix r2 cs"
      using skip_ws_Cons_suffix [OF ws1] s1 by (rule suffix_order.trans)
    have s3: "suffix r3 cs"
      using IH_value [OF guard1 x] skip_ws_suffix [of r2] s2
      by (meson suffix_order.trans)
    have l3: "length r3 < length cs"
      using IH_value [OF guard1 x] guard1 by simp
    have sd: "suffix ds cs"
      using skip_ws_Cons_suffix [OF ws3] s3 by (rule suffix_order.trans)
    have ld: "length ds < length cs"
      using skip_ws_Cons_suffix [OF ws3] l3 by (rule suffix_shorter)
    from s3 obtain p where p: "cs = p @ r3" by (auto simp: suffix_def)
    from skip_ws_Cons_split [OF ws3] obtain sp where sp: "r3 = sp @ d # ds" by blast
    show ?thesis
    proof (cases "d = 0x7D")
      case True
      with run' cs q k ws1 guard1 x ws3 have "v = JObject (acc @ [(k, x)])" "rest = ds"
        by (auto split: if_splits)
      moreover from p sp True have "cs = (p @ sp) @ 0x7D # ds" by simp
      ultimately show ?thesis using sd ld by blast
    next
      case False
      with run' cs q k ws1 guard1 x ws3 have guard2: "length (skip_ws ds) < length cs"
        and more: "parse_members (acc @ [(k, x)]) (skip_ws ds) = Some (v, rest)"
        by (auto split: if_splits)
      from IH_members [OF guard2 more] obtain u where
        a: "suffix rest (skip_ws ds)" "length rest < length (skip_ws ds)" "\<exists>kvs. v = JObject kvs"
        and u: "skip_ws ds = u @ 0x7D # rest"
        by blast
      have "suffix (skip_ws ds) cs"
        using skip_ws_suffix [of ds] sd by (rule suffix_order.trans)
      then obtain q where "cs = q @ skip_ws ds" by (auto simp: suffix_def)
      with u have "cs = (q @ u) @ 0x7D # rest" by simp
      moreover have "suffix rest cs"
        using a(1) \<open>suffix (skip_ws ds) cs\<close> by (rule suffix_order.trans)
      moreover have "length rest < length cs"
        using a(2) guard2 by simp
      ultimately show ?thesis using a(3) by blast
    qed
  qed
  from V E M show ?case by blast
qed

lemma parse_value_consumes:
  "parse_value cs = Some (v, rest) \<Longrightarrow> length rest < length cs"
  using parser_consumes [of cs] by blast

lemma elements_guard:
  assumes "parse_value cs = Some (v, rest)" and "skip_ws rest = d # ds"
  shows "length (skip_ws ds) < length cs"
proof -
  have "suffix (skip_ws ds) rest"
    using skip_ws_suffix [of ds] skip_ws_Cons_suffix [OF assms(2)] by (rule suffix_order.trans)
  then show ?thesis
    using parse_value_consumes [OF assms(1)] by (rule suffix_shorter)
qed

lemma members_guard_value:
  assumes "parse_string [] qs = Some (k, r1)" and "skip_ws r1 = colon # r2"
  shows "length (skip_ws r2) < length (q # qs)"
proof -
  have "suffix (skip_ws r2) r1"
    using skip_ws_suffix [of r2] skip_ws_Cons_suffix [OF assms(2)] by (rule suffix_order.trans)
  moreover have "length r1 < length (q # qs)"
    using parse_string_suffix [OF assms(1)] by simp
  ultimately show ?thesis by (rule suffix_shorter)
qed

lemma members_guard_next:
  assumes "parse_string [] qs = Some (k, r1)" and "skip_ws r1 = colon # r2"
    and "parse_value (skip_ws r2) = Some (v, r3)" and "skip_ws r3 = d # ds"
  shows "length (skip_ws ds) < length (q # qs)"
proof -
  have "suffix (skip_ws ds) r3"
    using skip_ws_suffix [of ds] skip_ws_Cons_suffix [OF assms(4)] by (rule suffix_order.trans)
  moreover have "length r3 < length (q # qs)"
    using parse_value_consumes [OF assms(3)] members_guard_value [OF assms(1,2), of q] by simp
  ultimately show ?thesis by (rule suffix_shorter)
qed

section \<open>Cleaning a wrapped payload\<close>

text \<open>
  Trimming and the removal of either fence keep a wrapped payload wrapped, and the cut
  from the first \<^verbatim>\<open>{\<close> to the last \<^verbatim>\<open>}\<close> then returns the payload itself.
\<close>

lemma brace_not_space: "\<not> isWhiteSpace 0x7B" "\<not> isWhiteSpace 0x7D"
  by (simp_all add: isWhiteSpace_def)

lemma brace_not_alnum: "\<not> isAlnum 0x7B"
  by (simp add: isAlnum_def isDigit_def)

lemma trim_between:
  assumes "\<not> isWhiteSpace x" "\<not> isWhiteSpace y"
  shows "trim (a @ x # mid @ y # b)
         = dropWhile isWhiteSpace a @ x # mid @ y # rev (dropWhile isWhiteSpace (rev b))"
proof -
  have "dropWhile isWhiteSpace (a @ x # mid @ y # b) = dropWhile isWhiteSpace a @ x # mid @ y # b"
    using assms(1) by (rule dropWhile_append3)
  moreover have "dropWhile isWhiteSpace (rev b @ y # rev mid @ x # rev (dropWhile isWhiteSpace a))
        = dropWhile isWhiteSpace (rev b) @ y # rev mid @ x # rev (dropWhile isWhiteSpace a)"
    using assms(2) by (rule dropWhile_append3)
  ultimately show ?thesis by (simp add: trim_def)
qed

lemma wrapped_trim: "wrapped mid s \<Longrightarrow> wrapped mid (trim s)"
proof -
  assume "wrapped mid s"
  then obtain a b where s: "s = a @ 0x7B # mid @ 0x7D # b" and a: "0x7B \<notin> set a" and b: "0x7D \<notin> set b"
    by (auto simp: wrapped_def)
  have "trim s = dropWhile isWhiteSpace a @ 0x7B # mid @ 0x7D # rev (dropWhile isWhiteSpace (rev b))"
    unfolding s by (rule trim_between [OF brace_not_space])
  moreover have "0x7B \<notin> set (dropWhile isWhiteSpace a)"
    using a by (auto dest: set_dropWhileD)
  moreover have "0x7D \<notin> set (rev (dropWhile isWhiteSpace (rev b)))"
    using b by (auto dest: set_dropWhileD)
  ultimately show ?thesis unfolding wrapped_def by blast
qed

lemma wrapped_nonempty: "wrapped mid s \<Longrightarrow> s \<noteq> []"
  by (auto simp: wrapped_def)

lemma startsWith_iff: "startsWith s p \<longleftrightarrow> (\<exists>r. s = p @ r)"
proof
  assume "startsWith s p"
  then have "s = p @ drop (length p) s"
    by (metis append_take_drop_id startsWith_def)
  then show "\<exists>r. s = p @ r" ..
next
  assume "\<exists>r. s = p @ r"
  then show "startsWith s p" by (auto simp: startsWith_def)
qed

lemma fence_in_prefix:
  fixes x :: "16 word"
  assumes "x \<noteq> 0x60" and "[0x60, 0x60, 0x60] @ r' = a @ x # r"
  shows "\<exists>a'. a = [0x60, 0x60, 0x60] @ a'"
proof (cases a)
  case Nil
  with assms show ?thesis by simp
next
  case a1: (Cons c1 t1)
  show ?thesis
  proof (cases t1)
    case Nil
    with a1 assms show ?thesis by simp
  next
    case a2: (Cons c2 t2)
    show ?thesis
    proof (cases t2)
      case Nil
      with a1 a2 assms show ?thesis by simp
    next
      case (Cons c3 t3)
      with a1 a2 assms show ?thesis by simp
    qed
  qed
qed

lemma wrapped_strip_opening:
  assumes "wrapped mid s"
  shows "wrapped mid (strip_opening_fence s)"
proof (cases "startsWith s [0x60, 0x60, 0x60]")
  case False
  with assms show ?thesis by (simp add: strip_opening_fence_def)
next
  case True
  from assms obtain a b where s: "s = a @ 0x7B # mid @ 0x7D # b"
    and a: "0x7B \<notin> set a" and b: "0x7D \<notin> set b"
    by (auto simp: wrapped_def)
  from True obtain r' where "s = [0x60, 0x60, 0x60] @ r'"
    by (auto simp: startsWith_iff)
  with s have "[0x60, 0x60, 0x60] @ r' = a @ 0x7B # mid @ 0x7D # b" by simp
  from fence_in_prefix [OF _ this] obtain a' where a': "a = [0x60, 0x60, 0x60] @ a'"
    by auto
  have dw: "dropWhile isAlnum (drop 3 s) = dropWhile isAlnum a' @ 0x7B # mid @ 0x7D # b"
    unfolding s a' using brace_not_alnum by (simp add: dropWhile_append3)
  show ?thesis
  proof (cases "dropWhile isAlnum a'")
    case Nil
    with dw True assms show ?thesis by (simp add: strip_opening_fence_def)
  next
    case (Cons c r)
    show ?thesis
    proof (cases "c = 0x0A")
      case False
      with dw Cons True assms show ?thesis by (simp add: strip_opening_fence_def)
    next
      case nl: True
      with dw Cons True have res: "strip_opening_fence s = r @ 0x7B # mid @ 0x7D # b"
        by (simp add: strip_opening_fence_def)
      have "set r \<subseteq> set (dropWhile isAlnum a')" using Cons by auto
      also have "\<dots> \<subseteq> set a'" by (auto dest: set_dropWhileD)
      also have "\<dots> \<subseteq> set a" using a' by auto
      finally have "0x7B \<notin> set r" using a by auto
      with b res show ?thesis unfolding wrapped_def by blast
    qed
  qed
qed

lemma closing_fence_iff:
  "3 \<le> length raw \<and> drop (length raw - 3) raw = [0x60, 0x60, 0x60]
   \<longleftrightarrow> (\<exists>r. raw = r @ [0x60, 0x60, 0x60])"
proof
  assume c: "3 \<le> length raw \<and> drop (length raw - 3) raw = [0x60, 0x60, 0x60]"
  have "raw = take (length raw - 3) raw @ drop (length raw - 3) raw" by simp
  with c show "\<exists>r. raw = r @ [0x60, 0x60, 0x60]" by metis
next
  assume "\<exists>r. raw = r @ [0x60, 0x60, 0x60]"
  then show "3 \<le> length raw \<and> drop (length raw - 3) raw = [0x60, 0x60, 0x60]" by auto
qed

lemma strip_closing_fence_fenced: "strip_closing_fence (r @ [0x60, 0x60, 0x60]) = r"
  by (simp add: strip_closing_fence_def)

lemma wrapped_strip_closing:
  assumes "wrapped mid s"
  shows "wrapped mid (strip_closing_fence s)"
proof (cases "\<exists>r. s = r @ [0x60, 0x60, 0x60]")
  case False
  with closing_fence_iff [of s]
  have "\<not> (3 \<le> length s \<and> drop (length s - 3) s = [0x60, 0x60, 0x60])" by blast
  then have "strip_closing_fence s = s"
    unfolding strip_closing_fence_def by (rule if_not_P)
  with assms show ?thesis by simp
next
  case True
  then obtain r where r: "s = r @ [0x60, 0x60, 0x60]" by blast
  from assms obtain a b where s: "s = a @ 0x7B # mid @ 0x7D # b"
    and a: "0x7B \<notin> set a" and b: "0x7D \<notin> set b"
    by (auto simp: wrapped_def)
  from r s have "[0x60, 0x60, 0x60] @ rev r = rev b @ 0x7D # rev (a @ 0x7B # mid)"
    by (metis rev_append rev.simps(2) append_assoc append_Cons append_Nil rev_rev_ident rev_swap)
  from fence_in_prefix [OF _ this] obtain b' where "rev b = [0x60, 0x60, 0x60] @ b'"
    by auto
  then have b': "b = rev b' @ [0x60, 0x60, 0x60]"
    by (metis rev_append rev_rev_ident rev.simps append_Cons append_Nil)
  with s have "s = (a @ 0x7B # mid @ 0x7D # rev b') @ [0x60, 0x60, 0x60]" by simp
  then have "strip_closing_fence s = a @ 0x7B # mid @ 0x7D # rev b'"
    using strip_closing_fence_fenced by metis
  moreover have "0x7D \<notin> set (rev b')" using b b' by auto
  ultimately show ?thesis using a unfolding wrapped_def by blast
qed

lemma indexOf_first: "x \<notin> set a \<Longrightarrow> indexOf (a @ x # r) x = Some (length a)"
  by (induction a) auto

lemma lastIndexOf_last:
  assumes "x \<notin> set b"
  shows "lastIndexOf (l @ x # b) x = Some (length l)"
proof -
  have "indexOf (rev b @ x # rev l) x = Some (length (rev b))"
    using assms by (intro indexOf_first) simp
  then show ?thesis by (simp add: lastIndexOf_def)
qed

lemma slice_wrapped:
  assumes "0x7B \<notin> set a" "0x7D \<notin> set b"
  shows "(case (indexOf (a @ 0x7B # mid @ 0x7D # b) 0x7B, lastIndexOf (a @ 0x7B # mid @ 0x7D # b) 0x7D) of
           (Some firstBrace, Some lastBrace) \<Rightarrow> slice (a @ 0x7B # mid @ 0x7D # b) firstBrace (lastBrace + 1)
         | _ \<Rightarrow> a @ 0x7B # mid @ 0x7D # b) = 0x7B # mid @ [0x7D]"
proof -
  have first: "indexOf (a @ 0x7B # mid @ 0x7D # b) 0x7B = Some (length a)"
    using assms(1) by (rule indexOf_first)
  have "lastIndexOf ((a @ 0x7B # mid) @ 0x7D # b) 0x7D = Some (length (a @ 0x7B # mid))"
    using assms(2) by (rule lastIndexOf_last)
  then have last: "lastIndexOf (a @ 0x7B # mid @ 0x7D # b) 0x7D = Some (length a + length mid + 1)"
    by simp
  show ?thesis
    by (simp add: first last slice_def)
qed

lemma clean_wrapped:
  assumes "wrapped mid s"
  shows "clean_part_000 s = 0x7B # mid @ [0x7D]"
proof -
  define raw1 where "raw1 = (if startsWith s [0x60, 0x60, 0x60]
                  then trim (strip_closing_fence (strip_opening_fence s))
                  else s)"
  have "wrapped mid raw1"
    unfolding raw1_def using assms
    by (auto intro: wrapped_trim wrapped_strip_closing wrapped_strip_opening)
  then obtain a b where raw1: "raw1 = a @ 0x7B # mid @ 0x7D # b"
    and a: "0x7B \<notin> set a" and b: "0x7D \<notin> set b"
    by (auto simp: wrapped_def)
  have "clean_part_000 s =
      (case (indexOf raw1 0x7B, lastIndexOf raw1 0x7D) of
           (Some firstBrace, Some lastBrace) \<Rightarrow> slice raw1 firstBrace (lastBrace + 1)
         | _ \<Rightarrow> raw1)"
    by (simp only: clean_part_000_def raw1_def Let_def)
  also have "\<dots> = 0x7B # mid @ [0x7D]"
    unfolding raw1 by (rule slice_wrapped [OF a b])
  finally show ?thesis .
qed

lemma content_wrapped:
  assumes "wrapped mid s"
  shows "wrapped mid (content_or_braces (Some s))"
proof -
  from assms have w: "wrapped mid (trim s)" by (rule wrapped_trim)
  then have "trim s \<noteq> []" by (rule wrapped_nonempty)
  with w show ?thesis by (simp add: content_or_braces_def)
qed

lemma extraction_wrapped:
  assumes "wrapped mid s"
  shows "getAIResponse_part_000 (\<lambda>p. Message (Some s)) prompt
         = (case reviews_of (0x7B # mid @ [0x7D]) of Inl e \<Rightarrow> None | Inr reviews \<Rightarrow> Some reviews)"
  using clean_wrapped [OF content_wrapped [OF assms]]
  by (simp add: getAIResponse_part_000_def getAIResponse_part_000_try_def)

lemma json_ws_is_space: "isJsonWs c \<Longrightarrow> isWhiteSpace c"
  by (auto simp: isJsonWs_def isWhiteSpace_def)

lemma json_ws_no_brace: "isJsonWs c \<Longrightarrow> c \<noteq> 0x7B \<and> c \<noteq> 0x7D"
  by (auto simp: isJsonWs_def)

lemma object_text_shape:
  assumes "JSON_parse t = Some (JObject kvs)"
  shows "\<exists>w1 mid w2. t = w1 @ 0x7B # mid @ 0x7D # w2
           \<and> (\<forall>c\<in>set w1. isJsonWs c) \<and> (\<forall>c\<in>set w2. isJsonWs c)"
proof -
  from assms obtain rest where run: "parse_value (skip_ws t) = Some (JObject kvs, rest)"
    and rest: "skip_ws rest = []"
    by (auto simp: JSON_parse_def split: option.splits if_splits)
  from parser_consumes [of "skip_ws t"] run obtain mid where
    mid: "skip_ws t = 0x7B # mid @ 0x7D # rest"
    by blast
  have "t = takeWhile isJsonWs t @ skip_ws t"
    by (simp add: skip_ws_def)
  with mid have "t = takeWhile isJsonWs t @ 0x7B # mid @ 0x7D # rest" by simp
  moreover have "\<forall>c\<in>set (takeWhile isJsonWs t). isJsonWs c"
    by (auto dest: set_takeWhileD)
  moreover have "\<forall>c\<in>set rest. isJsonWs c"
    using rest by (simp add: skip_ws_def)
  ultimately show ?thesis by blast
qed

lemma trim_spaces:
  assumes "\<forall>c\<in>set w1. isWhiteSpace c" "\<forall>c\<in>set w2. isWhiteSpace c"
  shows "trim (w1 @ 0x7B # mid @ 0x7D # w2) = 0x7B # mid @ [0x7D]"
proof -
  have a: "dropWhile isWhiteSpace w1 = []"
    using assms(1) by simp
  have b: "dropWhile isWhiteSpace (rev w2) = []"
    using assms(2) by simp
  show ?thesis
    unfolding trim_between [OF brace_not_space] a b by simp
qed

lemma extraction_spaced:
  assumes "\<forall>c\<in>set w1. isWhiteSpace c" "\<forall>c\<in>set w2. isWhiteSpace c"
  shows "getAIResponse (\<lambda>p. Message (Some (w1 @ 0x7B # mid @ 0x7D # w2))) prompt
         = (case reviews_of (0x7B # mid @ [0x7D]) of Inl e \<Rightarrow> None | Inr reviews \<Rightarrow> Some reviews)"
  using trim_spaces [OF assms, of mid]
  by (simp add: getAIResponse_def getAIResponse_try_def content_or_braces_def)

section \<open>Findings and comments: auxiliary facts\<close>

lemma flatMap_singletons:
  "(\<And>x. x \<in> set xs \<Longrightarrow> f x = Inr [g x]) \<Longrightarrow> flatMap f xs = Inr (map g xs)"
  by (induction xs) auto

lemma flatMap_all_empty:
  "(\<And>x. x \<in> set xs \<Longrightarrow> f x = Inr []) \<Longrightarrow> flatMap f xs = Inr []"
  by (induction xs) auto

lemma flatMap_throws:
  assumes "\<And>x e. f x = Inl e \<Longrightarrow> e = TypeError" and "x \<in> set xs" and "isl (f x)"
  shows "flatMap f xs = Inl TypeError"
  using assms(2,3)
proof (induction xs)
  case Nil
  then show ?case by simp
next
  case (Cons y ys)
  show ?case
  proof (cases "f y")
    case (Inl e)
    with assms(1) show ?thesis by simp
  next
    case (Inr zs)
    with Cons.prems have "x \<in> set ys" by auto
    from Cons.IH [OF this Cons.prems(2)] Inr show ?thesis by simp
  qed
qed

lemma Number_throws: "isl (Number v) \<longleftrightarrow> (\<exists>j. v = Some j \<and> toString_throws j)"
proof (cases v)
  case None
  then show ?thesis by simp
next
  case (Some j)
  then show ?thesis by (cases j) (simp_all add: array_to_number_def)
qed

lemma Number_error: "Number v = Inl e \<Longrightarrow> e = TypeError"
proof (cases v)
  case None
  then show "Number v = Inl e \<Longrightarrow> e = TypeError" by simp
next
  case (Some j)
  then show "Number v = Inl e \<Longrightarrow> e = TypeError"
    by (cases j) (simp_all add: array_to_number_def split: if_splits)
qed

lemma comment_of_no_path: "to f = None \<or> to f = Some [] \<Longrightarrow> comment_of f r = Inr []"
  by (auto simp: comment_of_def)

lemma comment_of_error: "comment_of f r = Inl e \<Longrightarrow> e = TypeError"
  by (auto simp: comment_of_def split: option.splits if_splits sum.splits dest: Number_error)

lemma comment_of_path:
  assumes "to f = Some t" "t \<noteq> []" "r \<noteq> JNull"
    and "\<not> isl (Number (projr (get r (ascii ''lineNumber''))))"
  shows "comment_of f r =
     Inr [\<lparr>body = projr (get r (ascii ''reviewComment'')), path = t,
           line = projr (Number (projr (get r (ascii ''lineNumber''))))\<rparr>]"
proof -
  from assms(4) obtain n where n: "Number (projr (get r (ascii ''lineNumber''))) = Inr n"
    by (cases "Number (projr (get r (ascii ''lineNumber'')))") auto
  with assms(1-3) show ?thesis by (cases r) (simp_all add: comment_of_def)
qed

lemma comment_of_throws:
  assumes "to f = Some t" "t \<noteq> []"
    and "r = JNull \<or> isl (Number (projr (get r (ascii ''lineNumber''))))"
  shows "isl (comment_of f r)"
proof (cases "r = JNull")
  case True
  with assms(1,2) show ?thesis by (simp add: comment_of_def)
next
  case False
  with assms(3) obtain e where "Number (projr (get r (ascii ''lineNumber''))) = Inl e"
    by (cases "Number (projr (get r (ascii ''lineNumber'')))") auto
  with assms(1,2) False show ?thesis by (cases r) (simp_all add: comment_of_def)
qed

lemma reviews_of_braces: "reviews_of (ascii ''{}'') = Inr (JArray [])"
  by code_simp

lemma reviews_of_unparseable: "JSON_parse raw = None \<Longrightarrow> reviews_of raw = Inl SyntaxError"
  by (simp add: reviews_of_def)

section \<open>The orchestrator: auxiliary facts\<close>

lemma flatMap_append:
  "flatMap f (xs @ ys) =
     (case flatMap f xs of
        Inl e \<Rightarrow> Inl e
      | Inr a \<Rightarrow> (case flatMap f ys of Inl e \<Rightarrow> Inl e | Inr b \<Rightarrow> Inr (a @ b)))"
  by (induction xs) (auto split: sum.splits)

lemma analyze_chunks_snd:
  "snd (analyze_chunks ai pr f chs (sent, cs)) =
     (case flatMap (hunk_comments ai pr) (enumerate (length sent) (map (Pair f) chs)) of
        Inl e \<Rightarrow> Inl e
      | Inr new \<Rightarrow> Inr (cs @ new))"
proof (induction chs arbitrary: sent cs)
  case Nil
  then show ?case by simp
next
  case (Cons ch chs)
  show ?case
    by (simp add: Cons.IH hunk_comments_def Let_def split: option.splits sum.splits)
qed

lemma analyze_chunks_fst:
  "snd (analyze_chunks ai pr f chs (sent, cs)) = Inr r \<Longrightarrow>
   fst (analyze_chunks ai pr f chs (sent, cs)) = sent @ map (\<lambda>c. createPrompt f c pr) chs"
proof (induction chs arbitrary: sent cs)
  case Nil
  then show ?case by simp
next
  case (Cons ch chs)
  then show ?case
    by (auto simp: Let_def split: option.splits sum.splits if_splits)
qed

lemma hunks_in_order_Cons:
  "hunks_in_order (f # fs) =
     (if to f = Some (ascii ''/dev/null'') then hunks_in_order fs
      else map (Pair f) (chunks f) @ hunks_in_order fs)"
  by (simp add: hunks_in_order_def)

lemma analyze_files_snd:
  "snd (analyze_files ai pr fs (sent, cs)) =
     (case flatMap (hunk_comments ai pr) (enumerate (length sent) (hunks_in_order fs)) of
        Inl e \<Rightarrow> Inl e
      | Inr new \<Rightarrow> Inr (cs @ new))"
proof (induction fs arbitrary: sent cs)
  case Nil
  then show ?case by (simp add: hunks_in_order_def)
next
  case (Cons f fs)
  show ?case
  proof (cases "to f = Some (ascii ''/dev/null'')")
    case True
    then show ?thesis by (simp add: Cons.IH hunks_in_order_Cons)
  next
    case False
    obtain sent' r where run: "analyze_chunks ai pr f (chunks f) (sent, cs) = (sent', r)"
      by (cases "analyze_chunks ai pr f (chunks f) (sent, cs)")
    have r: "r = (case flatMap (hunk_comments ai pr)
                         (enumerate (length sent) (map (Pair f) (chunks f))) of
                    Inl e \<Rightarrow> Inl e
                  | Inr new \<Rightarrow> Inr (cs @ new))"
      using analyze_chunks_snd [of ai pr f "chunks f" sent cs] run by simp
    show ?thesis
    proof (cases r)
      case (Inl e)
      with False run r show ?thesis
        by (simp add: hunks_in_order_Cons enumerate_append_eq flatMap_append split: sum.splits)
    next
      case (Inr cs')
      have "sent' = sent @ map (\<lambda>c. createPrompt f c pr) (chunks f)"
        using analyze_chunks_fst [of ai pr f "chunks f" sent cs cs'] run Inr by simp
      with False run r Inr show ?thesis
        by (simp add: hunks_in_order_Cons enumerate_append_eq flatMap_append Cons.IH
            split: sum.splits)
    qed
  qed
qed

lemma analyze_files_fst:
  "snd (analyze_files ai pr fs (sent, cs)) = Inr r \<Longrightarrow>
   fst (analyze_files ai pr fs (sent, cs)) =
     sent @ map (\<lambda>(f, c). createPrompt f c pr) (hunks_in_order fs)"
proof (induction fs arbitrary: sent cs)
  case Nil
  then show ?case by (simp add: hunks_in_order_def)
next
  case (Cons f fs)
  show ?case
  proof (cases "to f = Some (ascii ''/dev/null'')")
    case True
    with Cons show ?thesis by (simp add: hunks_in_order_Cons)
  next
    case False
    obtain sent' r' where run: "analyze_chunks ai pr f (chunks f) (sent, cs) = (sent', r')"
      by (cases "analyze_chunks ai pr f (chunks f) (sent, cs)")
    from Cons.prems False run obtain cs' where r': "r' = Inr cs'"
      by (cases r') auto
    have sent': "sent' = sent @ map (\<lambda>c. createPrompt f c pr) (chunks f)"
      using analyze_chunks_fst [of ai pr f "chunks f" sent cs cs'] run r' by simp
    from Cons.prems False run r'
    have "snd (analyze_files ai pr fs (sent', cs')) = Inr r" by simp
    from Cons.IH [OF this] False run r' sent' show ?thesis
      by (simp add: hunks_in_order_Cons comp_def)
  qed
qed


lemma getAIResponse_cong: "c1 p = c2 p \<Longrightarrow> getAIResponse c1 p = getAIResponse c2 p"
  by (simp add: getAIResponse_def getAIResponse_try_def)

lemma createComment_no_findings: "createComment f c (JArray []) = Inr []"
  by (simp add: createComment_def)

lemma analyze_chunks_contained:
  assumes same: "\<And>n p. n \<noteq> k \<Longrightarrow> mA n p = mB n p"
    and failed: "\<And>p. getAIResponse (mA k) p = None"
    and empty: "\<And>p. getAIResponse (mB k) p = Some (JArray [])"
  shows "analyze_chunks mA pr f chs (sent, cs) = analyze_chunks mB pr f chs (sent, cs)"
proof (induction chs arbitrary: sent cs)
  case Nil
  show ?case by simp
next
  case (Cons ch chs)
  show ?case
  proof (cases "length sent = k")
    case True
    then show ?thesis
      by (simp add: failed empty createComment_no_findings Cons.IH)
  next
    case False
    then have "getAIResponse (mA (length sent)) (createPrompt f ch pr)
             = getAIResponse (mB (length sent)) (createPrompt f ch pr)"
      by (intro getAIResponse_cong same)
    then show ?thesis
      by (simp add: Let_def Cons.IH split: option.splits sum.splits)
  qed
qed

lemma analyze_files_contained:
  assumes same: "\<And>n p. n \<noteq> k \<Longrightarrow> mA n p = mB n p"
    and failed: "\<And>p. getAIResponse (mA k) p = None"
    and empty: "\<And>p. getAIResponse (mB k) p = Some (JArray [])"
  shows "analyze_files mA pr fs (sent, cs) = analyze_files mB pr fs (sent, cs)"
proof (induction fs arbitrary: sent cs)
  case Nil
  show ?case by simp
next
  case (Cons f fs)
  have "analyze_chunks mA pr f (chunks f) (sent, cs) = analyze_chunks mB pr f (chunks f) (sent, cs)"
    by (rule analyze_chunks_contained [where k = k and mA = mA and mB = mB])
       (simp_all add: same failed empty)
  then show ?case
    by (simp add: Cons.IH split: prod.splits sum.splits)
qed

lemma analyze_files_append:
  "analyze_files ai pr (fs1 @ fs2) (sent, cs) =
     (case analyze_files ai pr fs1 (sent, cs) of
        (sent', Inl e) \<Rightarrow> (sent', Inl e)
      | (sent', Inr cs') \<Rightarrow> analyze_files ai pr fs2 (sent', cs'))"
proof (induction fs1 arbitrary: sent cs)
  case Nil
  show ?case by simp
next
  case (Cons f fs1)
  show ?case
    by (simp add: Cons.IH split: prod.splits sum.splits)
qed




lemma quiet_answer:
  "getAIResponse (\<lambda>p. Message (Some (ascii ''{\"reviews\":[]}''))) p = Some (JArray [])"
proof -
  have "reviews_of (content_or_braces (Some (ascii ''{\"reviews\":[]}''))) = Inr (JArray [])"
    by code_simp
  then show ?thesis by (simp add: getAIResponse_def getAIResponse_try_def)
qed

lemma example_file_live: "to example_file \<noteq> Some (ascii ''/dev/null'')"
  by (simp add: example_file_def ascii_def)

lemma analyze_quiet:
  "analyzeCode (\<lambda>n p. Message (Some (ascii ''{\"reviews\":[]}''))) [example_file] pr =
     ([createPrompt example_file example_chunk pr, createPrompt example_file example_chunk pr], Inr [])"
proof -
  have "chunks example_file = [example_chunk, example_chunk]"
    by (simp add: example_file_def)
  then show ?thesis
    by (simp add: analyzeCode_def example_file_live quiet_answer createComment_def)
qed

section \<open>The notification: auxiliary facts\<close>


lemma truncate_take: "take n (truncate t n) = take n t"
  by (simp add: truncate_def)

lemma truncate_short: "length t \<le> n \<Longrightarrow> truncate t n = t"
  by (simp add: truncate_def)

lemma truncate_long: "n < length t \<Longrightarrow> truncate t n = take n t @ ascii ''...''"
  by (simp add: truncate_def)

lemma digit_unat:
  assumes "d < 10"
  shows "unat (48 + of_nat d :: 16 word) - 48 = d"
proof -
  have "unat (of_nat (48 + d) :: 16 word) = (48 + d) mod 2 ^ LENGTH(16)"
    by (rule unat_of_nat)
  with assms show ?thesis by simp
qed

lemma show_nat_decimal: "decimal_val (show_nat n) = n"
proof (induction n rule: show_nat.induct)
  case (1 n)
  show ?case
  proof (cases "n < 10")
    case True
    then show ?thesis
      by (subst show_nat.simps) (simp add: decimal_val_def digits_val_def digit_unat)
  next
    case False
    with 1 have ih: "decimal_val (show_nat (n div 10)) = n div 10" by simp
    have d: "unat (48 + of_nat (n mod 10) :: 16 word) - 48 = n mod 10"
      by (rule digit_unat) simp
    show ?thesis
      using False ih d
      by (subst show_nat.simps) (simp add: decimal_val_def digits_val_def)
  qed
qed

lemma summary_line_string:
  "body c = Some (JString b) \<Longrightarrow>
   summary_line ts c =
     Inr [[0x2022, 0x20, 0x60] @ path c @ [0x3A] @ ts (line c) @ [0x60, 0x20, 0x2014, 0x20]
          @ truncate (oneLineBody b) 200]"
  by (simp add: summary_line_def)

lemma flatMap_strings:
  assumes "list_all (\<lambda>c. \<exists>b. body c = Some (JString b)) cs"
  shows "\<exists>lines. flatMap (summary_line ts) cs = Inr lines \<and> length lines = length cs
           \<and> (\<forall>i<length lines. summary_line ts (cs ! i) = Inr [lines ! i])"
  using assms
proof (induction cs)
  case Nil
  show ?case by simp
next
  case (Cons c cs)
  from Cons.prems obtain b where b: "body c = Some (JString b)" by auto
  from Cons obtain lines where
    lines: "flatMap (summary_line ts) cs = Inr lines" "length lines = length cs"
      "\<forall>i<length lines. summary_line ts (cs ! i) = Inr [lines ! i]"
    by auto
  let ?l = "[0x2022, 0x20, 0x60] @ path c @ [0x3A] @ ts (line c) @ [0x60, 0x20, 0x2014, 0x20]
          @ truncate (oneLineBody b) 200"
  have head: "summary_line ts c = Inr [?l]"
    by (rule summary_line_string [OF b])
  have "flatMap (summary_line ts) (c # cs) = Inr (?l # lines)"
    using head lines(1) by simp
  moreover have "length (?l # lines) = length (c # cs)"
    using lines(2) by simp
  moreover have "\<forall>i<length (?l # lines). summary_line ts ((c # cs) ! i) = Inr [(?l # lines) ! i]"
    using head lines(3) by (auto simp: nth_Cons split: nat.splits)
  ultimately show ?case by blast
qed

lemma baseText_count:
  assumes "comments \<noteq> []"
  shows "\<exists>pre post. baseText comments = pre @ show_nat (length comments) @ post"
proof -
  from assms have "baseText comments =
        [0xC774, 0xBC88, 0x20, 0x50, 0x52, 0xC5D0, 0x20, 0xB300, 0xD574, 0x20, 0x2A]
        @ show_nat (length comments)
        @ [0xAC1C, 0x2A, 0xC758, 0x20, 0xB9AC, 0xBDF0, 0x20, 0xCF54, 0xBA58, 0xD2B8, 0xAC00, 0x20,
           0xC0DD, 0xC131, 0xB418, 0xC5C8, 0xC5B4, 0xC6A9, 0x2E, 0x20, 0xC8FC, 0xC694, 0x20, 0xB0B4,
           0xC6A9, 0x20, 0xC77C, 0xBD80, 0xB9CC, 0x20, 0xC815, 0xB9AC, 0xD574, 0x20, 0xB4DC, 0xB9B4,
           0xAC8C, 0xC694, 0x20, 0xD83D, 0xDC36]"
    by (simp add: baseText_def)
  then show ?thesis by blast
qed

lemma slack_payload_link:
  "\<exists>heading. payload_blocks (slack_payload prDetails t) =
      [Section (heading @ [0x3C] @ url prDetails @ [0x7C] @ title prDetails @ [0x3E]), Section t]"
proof -
  have "payload_blocks (slack_payload prDetails t) =
      [Section ([0x2A, 0x41, 0x49, 0x20, 0xCF54, 0xB4DC, 0x20, 0xB9AC, 0xBDF0, 0x20, 0xACB0, 0xACFC,
             0xC5D0, 0xC694, 0x20, 0xD83E, 0xDDC1, 0x2A, 0x0A, 0x2A, 0x50, 0x52, 0x3A, 0x2A, 0x20]
          @ [0x3C] @ url prDetails @ [0x7C] @ title prDetails @ [0x3E]), Section t]"
    by (simp add: slack_payload_def)
  then show ?thesis by blast
qed

section \<open>The claims\<close>

text \<open>
  Claim C1, as amended. \<open>createComment\<close> has no test on the line of a finding. It drops
  every finding of a file whose destination path is absent or empty. For any other
  file, when no finding is \<^verbatim>\<open>null\<close> and \<^verbatim>\<open>Number\<close> throws on no \<^verbatim>\<open>lineNumber\<close>, it returns
  exactly one record per finding, in the order of the findings, whose line is
  \<^verbatim>\<open>Number(lineNumber)\<close>: a finding whose line does not read as a number is kept, with the
  line \<open>NaN\<close>. When a finding is \<^verbatim>\<open>null\<close> or \<^verbatim>\<open>Number\<close> throws on a \<^verbatim>\<open>lineNumber\<close>, it throws a
  TypeError and returns no record. \<^verbatim>\<open>Number\<close> throws exactly on an object with a member
  \<^verbatim>\<open>toString\<close> and on an array that holds such an object, directly or in nested arrays.
\<close>

theorem createComment_keeps_unparsed_line:
  "(to file = None \<or> to file = Some [] \<longrightarrow> createComment file chunk (JArray rs) = Inr [])
   \<and> (\<forall>t. to file = Some t \<and> t \<noteq> [] \<and> JNull \<notin> set rs
          \<and> (\<forall>r \<in> set rs. \<not> isl (Number (projr (get r (ascii ''lineNumber''))))) \<longrightarrow>
          createComment file chunk (JArray rs) =
            Inr (map (\<lambda>r. \<lparr>body = projr (get r (ascii ''reviewComment'')), path = t,
                           line = projr (Number (projr (get r (ascii ''lineNumber''))))\<rparr>) rs))
   \<and> (\<forall>t. to file = Some t \<and> t \<noteq> []
          \<and> (\<exists>r \<in> set rs. r = JNull \<or> isl (Number (projr (get r (ascii ''lineNumber''))))) \<longrightarrow>
          createComment file chunk (JArray rs) = Inl TypeError)
   \<and> (\<forall>v. isl (Number v) \<longleftrightarrow> (\<exists>j. v = Some j \<and> toString_throws j))"
proof (intro conjI impI allI)
  assume "to file = None \<or> to file = Some []"
  then have "flatMap (comment_of file) rs = Inr []"
    by (intro flatMap_all_empty comment_of_no_path)
  then show "createComment file chunk (JArray rs) = Inr []"
    by (simp add: createComment_def)
next
  fix t
  assume a: "to file = Some t \<and> t \<noteq> [] \<and> JNull \<notin> set rs
          \<and> (\<forall>r \<in> set rs. \<not> isl (Number (projr (get r (ascii ''lineNumber'')))))"
  have "flatMap (comment_of file) rs =
          Inr (map (\<lambda>r. \<lparr>body = projr (get r (ascii ''reviewComment'')), path = t,
                           line = projr (Number (projr (get r (ascii ''lineNumber''))))\<rparr>) rs)"
  proof (rule flatMap_singletons)
    fix r assume r: "r \<in> set rs"
    with a have "r \<noteq> JNull" by auto
    moreover from a r have "\<not> isl (Number (projr (get r (ascii ''lineNumber''))))" by blast
    ultimately show "comment_of file r =
        Inr [\<lparr>body = projr (get r (ascii ''reviewComment'')), path = t,
              line = projr (Number (projr (get r (ascii ''lineNumber''))))\<rparr>]"
      using a by (intro comment_of_path) auto
  qed
  then show "createComment file chunk (JArray rs) =
            Inr (map (\<lambda>r. \<lparr>body = projr (get r (ascii ''reviewComment'')), path = t,
                           line = projr (Number (projr (get r (ascii ''lineNumber''))))\<rparr>) rs)"
    by (simp add: createComment_def)
next
  fix t
  assume a: "to file = Some t \<and> t \<noteq> []
          \<and> (\<exists>r \<in> set rs. r = JNull \<or> isl (Number (projr (get r (ascii ''lineNumber'')))))"
  then obtain r where r: "r \<in> set rs"
      "r = JNull \<or> isl (Number (projr (get r (ascii ''lineNumber''))))"
    by blast
  from a r(2) have "isl (comment_of file r)" by (intro comment_of_throws) auto
  with r(1) have "flatMap (comment_of file) rs = Inl TypeError"
    by (intro flatMap_throws [where x = r] comment_of_error)
  then show "createComment file chunk (JArray rs) = Inl TypeError"
    by (simp add: createComment_def)
next
  fix v
  show "isl (Number v) \<longleftrightarrow> (\<exists>j. v = Some j \<and> toString_throws j)"
    by (rule Number_throws)
qed

text \<open>The claim as stated fails: the finding with the line \<^verbatim>\<open>"abc"\<close> is in the output.\<close>

theorem createComment_NaN_line_counterexample:
  "createComment example_file example_chunk (JArray [unnumbered_finding])
   = Inr [\<lparr>body = Some (JString (ascii ''use optional binding here'')),
           path = ascii ''App/Model.swift'', line = NaN\<rparr>]"
  by code_simp

theorem createComment_keeps_unparsed_line_witness:
  "createComment pathless_file example_chunk (JArray [unnumbered_finding]) = Inr []
   \<and> createComment example_file example_chunk (JArray [unnumbered_finding]) =
       Inr [\<lparr>body = Some (JString (ascii ''use optional binding here'')),
             path = ascii ''App/Model.swift'', line = NaN\<rparr>]
   \<and> createComment example_file example_chunk (JArray [unnumbered_finding, unconvertible_finding])
       = Inl TypeError
   \<and> isl (Number (Some (JObject [(ascii ''toString'', JNumber (Finite 1))])))"
proof -
  have 1: "to pathless_file = None \<or> to pathless_file = Some []"
    by (simp add: pathless_file_def)
  have 4: "Number (projr (get unnumbered_finding (ascii ''lineNumber''))) = Inr NaN"
    by code_simp
  have 2: "to example_file = Some (ascii ''App/Model.swift'') \<and> ascii ''App/Model.swift'' \<noteq> []
           \<and> JNull \<notin> set [unnumbered_finding]
           \<and> (\<forall>r \<in> set [unnumbered_finding]. \<not> isl (Number (projr (get r (ascii ''lineNumber'')))))"
    using 4 by (simp add: example_file_def unnumbered_finding_def ascii_def)
  have 3: "projr (get unnumbered_finding (ascii ''reviewComment'')) = Some (JString (ascii ''use optional binding here''))"
    by code_simp
  have 5: "isl (Number (projr (get unconvertible_finding (ascii ''lineNumber''))))"
    by code_simp
  have 6: "to example_file = Some (ascii ''App/Model.swift'') \<and> ascii ''App/Model.swift'' \<noteq> []
           \<and> (\<exists>r \<in> set [unnumbered_finding, unconvertible_finding].
                 r = JNull \<or> isl (Number (projr (get r (ascii ''lineNumber'')))))"
    using 5 by (simp add: example_file_def ascii_def)
  have 7: "\<exists>j. Some (JObject [(ascii ''toString'', JNumber (Finite 1))]) = Some j \<and> toString_throws j"
    by simp
  from createComment_keeps_unparsed_line [of pathless_file example_chunk "[unnumbered_finding]"] 1
  have "createComment pathless_file example_chunk (JArray [unnumbered_finding]) = Inr []"
    by blast
  moreover from createComment_keeps_unparsed_line [of example_file example_chunk "[unnumbered_finding]"] 2
  have "createComment example_file example_chunk (JArray [unnumbered_finding]) =
            Inr (map (\<lambda>r. \<lparr>body = projr (get r (ascii ''reviewComment'')), path = ascii ''App/Model.swift'',
                           line = projr (Number (projr (get r (ascii ''lineNumber''))))\<rparr>) [unnumbered_finding])"
    by blast
  moreover from createComment_keeps_unparsed_line [of example_file example_chunk "[unnumbered_finding, unconvertible_finding]"] 6
  have "createComment example_file example_chunk (JArray [unnumbered_finding, unconvertible_finding])
          = Inl TypeError"
    by blast
  moreover from createComment_keeps_unparsed_line [of example_file example_chunk "[]"] 7
  have "isl (Number (Some (JObject [(ascii ''toString'', JNumber (Finite 1))])))"
    by blast
  ultimately show ?thesis using 3 4 by simp
qed

text \<open>
  Claim C2, as amended. Let \<open>t\<close> be a text that \<^verbatim>\<open>JSON.parse\<close> reads as an object. The
  revision of \<open>getAIResponse\<close> that cleans its input returns the same for \<open>t\<close> between any
  text with no \<^verbatim>\<open>{\<close> before it and any text with no \<^verbatim>\<open>}\<close> after it, in particular inside
  a fenced block with an alphanumeric tag, as for \<open>t\<close> alone. The revision in \<^verbatim>\<open>main.ts\<close>
  only trims: it returns the same for \<open>t\<close> between white space as for \<open>t\<close> alone. On
  \<open>t\<close> alone the two revisions agree.
\<close>

theorem extraction_unchanged_by_wrapping:
  assumes parsed: "JSON_parse t = Some (JObject kvs)"
  shows "(0x7B \<notin> set pre \<and> 0x7D \<notin> set post \<longrightarrow>
            getAIResponse_part_000 (\<lambda>p. Message (Some (pre @ t @ post))) prompt
            = getAIResponse_part_000 (\<lambda>p. Message (Some t)) prompt)
       \<and> (list_all isAlnum tag \<longrightarrow>
            getAIResponse_part_000
              (\<lambda>p. Message (Some ([0x60, 0x60, 0x60] @ tag @ [0x0A] @ t @ [0x0A, 0x60, 0x60, 0x60])))
              prompt
            = getAIResponse_part_000 (\<lambda>p. Message (Some t)) prompt)
       \<and> (list_all isWhiteSpace pre \<and> list_all isWhiteSpace post \<longrightarrow>
            getAIResponse (\<lambda>p. Message (Some (pre @ t @ post))) prompt
            = getAIResponse (\<lambda>p. Message (Some t)) prompt)
       \<and> getAIResponse_part_000 (\<lambda>p. Message (Some t)) prompt
         = getAIResponse (\<lambda>p. Message (Some t)) prompt"
proof -
  from object_text_shape [OF parsed] obtain w1 mid w2 where
    t: "t = w1 @ 0x7B # mid @ 0x7D # w2"
    and w1: "\<forall>c\<in>set w1. isJsonWs c" and w2: "\<forall>c\<in>set w2. isJsonWs c"
    by blast
  have inside: "wrapped mid (a @ t @ b)" if "0x7B \<notin> set a" "0x7D \<notin> set b" for a b
  proof -
    have "a @ t @ b = (a @ w1) @ 0x7B # mid @ 0x7D # (w2 @ b)"
      by (simp add: t)
    moreover have "0x7B \<notin> set (a @ w1)"
      using that(1) w1 json_ws_no_brace by auto
    moreover have "0x7D \<notin> set (w2 @ b)"
      using that(2) w2 json_ws_no_brace by auto
    ultimately show ?thesis unfolding wrapped_def by blast
  qed
  from inside [of "[]" "[]"] have bare: "wrapped mid t" by simp
  let ?r = "case reviews_of (0x7B # mid @ [0x7D]) of Inl e \<Rightarrow> None | Inr reviews \<Rightarrow> Some reviews"
  have old: "getAIResponse_part_000 (\<lambda>p. Message (Some t)) prompt = ?r"
    by (rule extraction_wrapped [OF bare])
  have new: "getAIResponse (\<lambda>p. Message (Some (a @ t @ b))) prompt = ?r"
    if "list_all isWhiteSpace a" "list_all isWhiteSpace b" for a b
  proof -
    have "a @ t @ b = (a @ w1) @ 0x7B # mid @ 0x7D # (w2 @ b)"
      by (simp add: t)
    moreover have "\<forall>c\<in>set (a @ w1). isWhiteSpace c"
      using that(1) w1 json_ws_is_space by (auto simp: list_all_iff)
    moreover have "\<forall>c\<in>set (w2 @ b). isWhiteSpace c"
      using that(2) w2 json_ws_is_space by (auto simp: list_all_iff)
    ultimately show ?thesis using extraction_spaced by metis
  qed
  from new [of "[]" "[]"] have new_bare: "getAIResponse (\<lambda>p. Message (Some t)) prompt = ?r"
    by simp
  have 1: "getAIResponse_part_000 (\<lambda>p. Message (Some (pre @ t @ post))) prompt
            = getAIResponse_part_000 (\<lambda>p. Message (Some t)) prompt"
    if "0x7B \<notin> set pre \<and> 0x7D \<notin> set post"
    using extraction_wrapped [OF inside [of pre post]] that old by simp
  have 2: "getAIResponse_part_000
              (\<lambda>p. Message (Some ([0x60, 0x60, 0x60] @ tag @ [0x0A] @ t @ [0x0A, 0x60, 0x60, 0x60])))
              prompt
            = getAIResponse_part_000 (\<lambda>p. Message (Some t)) prompt"
    if tag: "list_all isAlnum tag"
  proof -
    have "0x7B \<notin> set ([0x60, 0x60, 0x60] @ tag @ [0x0A])"
      using tag brace_not_alnum by (auto simp: list_all_iff)
    moreover have "0x7D \<notin> set [0x0A, 0x60, 0x60, 0x60 :: 16 word]" by simp
    ultimately have "wrapped mid (([0x60, 0x60, 0x60] @ tag @ [0x0A]) @ t @ [0x0A, 0x60, 0x60, 0x60])"
      by (rule inside)
    from extraction_wrapped [OF this] old show ?thesis by simp
  qed
  have 3: "getAIResponse (\<lambda>p. Message (Some (pre @ t @ post))) prompt
            = getAIResponse (\<lambda>p. Message (Some t)) prompt"
    if "list_all isWhiteSpace pre \<and> list_all isWhiteSpace post"
    using new [of pre post] that new_bare by simp
  from 1 2 3 old new_bare show ?thesis by simp
qed

text \<open>
  The claim as stated fails in both revisions: \<^verbatim>\<open>main.ts\<close> returns \<^verbatim>\<open>null\<close> for a fenced
  payload, and the cleaning revision returns \<^verbatim>\<open>null\<close> when the prose before the payload
  has a brace of its own.
\<close>

theorem extraction_changed_by_wrapping_counterexample:
  "getAIResponse (\<lambda>p. Message (Some ([0x60, 0x60, 0x60] @ ascii ''json'' @ [0x0A] @ example_answer
                                        @ [0x0A, 0x60, 0x60, 0x60])))
     (ascii ''Review this diff.'') = None
   \<and> getAIResponse_part_000 (\<lambda>p. Message (Some (ascii ''Fix {this}: '' @ example_answer)))
       (ascii ''Review this diff.'') = None
   \<and> getAIResponse (\<lambda>p. Message (Some example_answer)) (ascii ''Review this diff.'')
       = Some (JArray [JObject [(ascii ''lineNumber'', JNumber (Finite 11)),
                                (ascii ''reviewComment'', JString (ascii ''use optional binding here''))]])
   \<and> getAIResponse_part_000 (\<lambda>p. Message (Some example_answer)) (ascii ''Review this diff.'')
       = Some (JArray [JObject [(ascii ''lineNumber'', JNumber (Finite 11)),
                                (ascii ''reviewComment'', JString (ascii ''use optional binding here''))]])"
  by code_simp

theorem extraction_unchanged_by_wrapping_witness:
  "getAIResponse_part_000
     (\<lambda>p. Message (Some (ascii ''Here is the review: '' @ example_answer @ ascii '' Done.'')))
     (ascii ''Review this diff.'')
   = getAIResponse_part_000 (\<lambda>p. Message (Some example_answer)) (ascii ''Review this diff.'')
   \<and> getAIResponse_part_000
       (\<lambda>p. Message (Some ([0x60, 0x60, 0x60] @ ascii ''json'' @ [0x0A] @ example_answer
                             @ [0x0A, 0x60, 0x60, 0x60])))
       (ascii ''Review this diff.'')
     = getAIResponse_part_000 (\<lambda>p. Message (Some example_answer)) (ascii ''Review this diff.'')"
proof -
  have parsed: "JSON_parse example_answer =
      Some (JObject [(ascii ''reviews'',
        JArray [JObject [(ascii ''lineNumber'', JNumber (Finite 11)),
                         (ascii ''reviewComment'', JString (ascii ''use optional binding here''))]])])"
    by code_simp
  have prose: "0x7B \<notin> set (ascii ''Here is the review: '') \<and> 0x7D \<notin> set (ascii '' Done.'')"
    by code_simp
  have tag: "list_all isAlnum (ascii ''json'')"
    by code_simp
  from extraction_unchanged_by_wrapping [OF parsed, where pre = "ascii ''Here is the review: ''" and post = "ascii '' Done.''"
            and tag = "ascii ''json''" and prompt = "ascii ''Review this diff.''"] prose tag
  show ?thesis by blast
qed

text \<open>
  Claim C3, as amended. \<open>getAIResponse\<close> never throws: whatever its \<^verbatim>\<open>try\<close> block throws,
  it returns \<^verbatim>\<open>null\<close>. It returns \<^verbatim>\<open>null\<close>, and not the empty list, when the request fails
  or has no choice and when the text is not JSON; it returns the empty list when the
  text is missing or blank.
\<close>

theorem getAIResponse_null_on_failure:
  "(\<forall>e. getAIResponse_try create prompt = Inl e \<longrightarrow> getAIResponse create prompt = None)
   \<and> (create prompt = Rejected \<or> create prompt = NoChoices \<longrightarrow> getAIResponse create prompt = None)
   \<and> (\<forall>s. create prompt = Message (Some s) \<and> trim s \<noteq> [] \<and> JSON_parse (trim s) = None \<longrightarrow>
          getAIResponse create prompt = None)
   \<and> (create prompt = Message None \<or> (\<exists>s. create prompt = Message (Some s) \<and> trim s = []) \<longrightarrow>
          getAIResponse create prompt = Some (JArray []))"
proof (intro conjI allI impI)
  fix e assume "getAIResponse_try create prompt = Inl e"
  then show "getAIResponse create prompt = None"
    by (simp add: getAIResponse_def)
next
  assume "create prompt = Rejected \<or> create prompt = NoChoices"
  then show "getAIResponse create prompt = None"
    by (auto simp: getAIResponse_def getAIResponse_try_def)
next
  fix s assume "create prompt = Message (Some s) \<and> trim s \<noteq> [] \<and> JSON_parse (trim s) = None"
  then show "getAIResponse create prompt = None"
    by (simp add: getAIResponse_def getAIResponse_try_def content_or_braces_def
        reviews_of_unparseable)
next
  assume "create prompt = Message None \<or> (\<exists>s. create prompt = Message (Some s) \<and> trim s = [])"
  then show "getAIResponse create prompt = Some (JArray [])"
    by (auto simp: getAIResponse_def getAIResponse_try_def content_or_braces_def
        reviews_of_braces)
qed

text \<open>The claim as stated fails: for the text of the spec's scenario C the result is
  \<^verbatim>\<open>null\<close>, not a list.\<close>

theorem getAIResponse_null_counterexample:
  "getAIResponse (\<lambda>p. Message (Some (ascii ''Sure! {\"reviews\": [}''))) (ascii ''Review this diff.'') = None"
  by code_simp

theorem getAIResponse_null_on_failure_witness:
  "getAIResponse (\<lambda>p. Message (Some (ascii ''Sure! {\"reviews\": [}''))) (ascii ''Review this diff.'') = None
   \<and> getAIResponse (\<lambda>p. Rejected) (ascii ''Review this diff.'') = None
   \<and> getAIResponse (\<lambda>p. Message None) (ascii ''Review this diff.'') = Some (JArray [])"
proof -
  let ?s = "ascii ''Sure! {\"reviews\": [}''"
  have 1: "trim ?s \<noteq> [] \<and> JSON_parse (trim ?s) = None"
    by code_simp
  from getAIResponse_null_on_failure [of "\<lambda>p. Message (Some ?s)" "ascii ''Review this diff.''"] 1
  have "getAIResponse (\<lambda>p. Message (Some ?s)) (ascii ''Review this diff.'') = None"
    by blast
  moreover from getAIResponse_null_on_failure [of "\<lambda>p. Rejected" "ascii ''Review this diff.''"]
  have "getAIResponse (\<lambda>p. Rejected) (ascii ''Review this diff.'') = None"
    by blast
  moreover from getAIResponse_null_on_failure [of "\<lambda>p. Message None" "ascii ''Review this diff.''"]
  have "getAIResponse (\<lambda>p. Message None) (ascii ''Review this diff.'') = Some (JArray [])"
    by blast
  ultimately show ?thesis by simp
qed

text \<open>
  Claim C4 (failure containment). Take two runs over the same diff whose models answer
  every call alike except the \<open>k\<close>-th: in the first run \<open>getAIResponse\<close> returns \<^verbatim>\<open>null\<close> for
  that hunk, in the second it returns the empty list of findings. Then \<open>analyzeCode\<close>
  gives the same result in both: the same prompts sent, and the same comments (or the
  same exception).
\<close>

theorem analyzeCode_failure_containment:
  assumes "\<forall>n p. n \<noteq> k \<longrightarrow> mA n p = mB n p"
    and "\<forall>p. getAIResponse (mA k) p = None"
    and "\<forall>p. getAIResponse (mB k) p = Some (JArray [])"
  shows "analyzeCode mA parsedDiff prDetails = analyzeCode mB parsedDiff prDetails"
  unfolding analyzeCode_def
  by (rule analyze_files_contained [where k = k and mA = mA and mB = mB])
     (simp_all add: assms)

theorem analyzeCode_failure_containment_witness:
  "analyzeCode failing_model [example_file, example_file] example_pr
   = analyzeCode silent_model [example_file, example_file] example_pr"
proof -
  have "\<forall>n p. n \<noteq> 1 \<longrightarrow> failing_model n p = silent_model n p"
    by (simp add: failing_model_def silent_model_def)
  moreover have "\<forall>p. getAIResponse (failing_model 1) p = None"
    by (simp add: failing_model_def getAIResponse_def getAIResponse_try_def)
  moreover have "\<forall>p. getAIResponse (silent_model 1) p = Some (JArray [])"
    by (simp add: silent_model_def quiet_answer)
  ultimately show ?thesis by (rule analyzeCode_failure_containment)
qed

text \<open>
  Claim C5 (encounter order). The comments \<open>analyzeCode\<close> returns are the comments of the
  hunks concatenated in encounter order: files in the order of the diff, the hunks of a
  file in their order, and within a hunk the comments of its findings in the order of
  the findings; nothing is sorted. An exception ends both at the same hunk.
\<close>

theorem analyzeCode_encounter_order:
  "snd (analyzeCode ai parsedDiff prDetails) = encounter_order ai parsedDiff prDetails
   \<and> createComment file chunk (JArray findings) = flatMap (comment_of file) findings"
  by (simp add: analyzeCode_def encounter_order_def analyze_files_snd createComment_def
      split: sum.splits)

text \<open>
  Claim C6 (deleted files). A file whose destination is \<^verbatim>\<open>"/dev/null"\<close> can be taken out of
  the diff without changing the run: no prompt is built for it, the model is not called
  for it, and it gives no comment. A diff of that file alone sends nothing and returns
  no comment.
\<close>

theorem analyzeCode_skips_deleted_file:
  assumes "to f = Some (ascii ''/dev/null'')"
  shows "analyzeCode ai (fs1 @ f # fs2) prDetails = analyzeCode ai (fs1 @ fs2) prDetails
       \<and> analyzeCode ai [f] prDetails = ([], Inr [])"
  using assms by (simp add: analyzeCode_def analyze_files_append split: prod.splits sum.splits)

theorem analyzeCode_skips_deleted_file_witness:
  "analyzeCode steady_model [example_file, deleted_file, example_file] example_pr
     = analyzeCode steady_model [example_file, example_file] example_pr
   \<and> analyzeCode steady_model [deleted_file] example_pr = ([], Inr [])"
  using analyzeCode_skips_deleted_file [of deleted_file steady_model "[example_file]" "[example_file]" example_pr]
  by (simp add: deleted_file_def)

text \<open>
  Claim C7, as amended. With no webhook configured \<open>notifySlack\<close> posts nothing and
  returns without an error. With a webhook, and comments whose bodies are strings, it
  posts one payload: a section that ends with the link \<^verbatim>\<open><url|title>\<close> to the pull
  request, and a section made of the base text, an empty line, and one line for each of
  the first five comments (so at most five). Each line is the path and the line of the
  comment followed by \<^verbatim>\<open>truncate(oneLineBody, 200)\<close>: the body with its line feeds turned
  into spaces when it has at most 200 characters, and otherwise its first 200 characters
  followed by three dots. The base text states the count, in decimal, when the list is
  not empty.
\<close>

theorem notifySlack_summary:
  "(SLACK_WEBHOOK_URL w = [] \<longrightarrow> notifySlack w prDetails comments = ([], None))
   \<and> (SLACK_WEBHOOK_URL w \<noteq> []
        \<and> list_all (\<lambda>c. \<exists>b. body c = Some (JString b)) (take 5 comments) \<longrightarrow>
      (\<exists>lines heading.
          fst (notifySlack w prDetails comments) =
            [SlackPost (SLACK_WEBHOOK_URL w) (slack_payload prDetails
               (join [0x0A] ([baseText comments, []] @ lines)))]
        \<and> payload_blocks (slack_payload prDetails (join [0x0A] ([baseText comments, []] @ lines))) =
            [Section (heading @ [0x3C] @ url prDetails @ [0x7C] @ title prDetails @ [0x3E]),
             Section (join [0x0A] ([baseText comments, []] @ lines))]
        \<and> length lines = min 5 (length comments)
        \<and> (\<forall>i<length lines. \<exists>b. body (comments ! i) = Some (JString b)
              \<and> lines ! i =
                  [0x2022, 0x20, 0x60] @ path (comments ! i) @ [0x3A]
                  @ numberToString w (line (comments ! i)) @ [0x60, 0x20, 0x2014, 0x20]
                  @ truncate (oneLineBody b) 200)))
   \<and> (comments \<noteq> [] \<longrightarrow>
        (\<exists>pre post. baseText comments =
           pre @ show_nat (length comments) @ post)
        \<and> decimal_val (show_nat (length comments)) = length comments)
   \<and> (\<forall>t. take 200 (truncate t 200) = take 200 t
          \<and> (length t \<le> 200 \<longrightarrow> truncate t 200 = t)
          \<and> (200 < length t \<longrightarrow> truncate t 200 = take 200 t @ ascii ''...''))"
proof (intro conjI impI allI)
  assume "SLACK_WEBHOOK_URL w = []"
  then show "notifySlack w prDetails comments = ([], None)"
    by (simp add: notifySlack_def)
next
  assume a: "SLACK_WEBHOOK_URL w \<noteq> []
        \<and> list_all (\<lambda>c. \<exists>b. body c = Some (JString b)) (take 5 comments)"
  from flatMap_strings [of "take 5 comments" "numberToString w"] a
  obtain lines where
    lines: "flatMap (summary_line (numberToString w)) (take 5 comments) = Inr lines"
      "length lines = length (take 5 comments)"
      "\<forall>i<length lines. summary_line (numberToString w) (take 5 comments ! i) = Inr [lines ! i]"
    by blast
  let ?t = "join [0x0A] ([baseText comments, []] @ lines)"
  from slack_payload_link [of prDetails ?t] obtain heading where
    heading: "payload_blocks (slack_payload prDetails ?t) =
      [Section (heading @ [0x3C] @ url prDetails @ [0x7C] @ title prDetails @ [0x3E]), Section ?t]"
    by blast
  have post: "fst (notifySlack w prDetails comments) =
            [SlackPost (SLACK_WEBHOOK_URL w) (slack_payload prDetails ?t)]"
    using a lines(1) by (simp add: notifySlack_def slackText_def)
  have len: "length lines = min 5 (length comments)"
    using lines(2) by (simp add: min.commute)
  have each: "\<forall>i<length lines. \<exists>b. body (comments ! i) = Some (JString b)
              \<and> lines ! i =
                  [0x2022, 0x20, 0x60] @ path (comments ! i) @ [0x3A]
                  @ numberToString w (line (comments ! i)) @ [0x60, 0x20, 0x2014, 0x20]
                  @ truncate (oneLineBody b) 200"
  proof (intro allI impI)
    fix i assume i: "i < length lines"
    with lines(2) have i5: "i < length (take 5 comments)" by simp
    then have nth: "take 5 comments ! i = comments ! i" by simp
    from a i5 have "\<exists>b. body (take 5 comments ! i) = Some (JString b)"
      by (simp add: list_all_length)
    then obtain b where b: "body (comments ! i) = Some (JString b)"
      using nth by auto
    from lines(3) i nth have "summary_line (numberToString w) (comments ! i) = Inr [lines ! i]"
      by auto
    with summary_line_string [OF b, of "numberToString w"] b
    show "\<exists>b. body (comments ! i) = Some (JString b)
              \<and> lines ! i =
                  [0x2022, 0x20, 0x60] @ path (comments ! i) @ [0x3A]
                  @ numberToString w (line (comments ! i)) @ [0x60, 0x20, 0x2014, 0x20]
                  @ truncate (oneLineBody b) 200"
      by auto
  qed
  from post heading len each
  show "\<exists>lines heading.
          fst (notifySlack w prDetails comments) =
            [SlackPost (SLACK_WEBHOOK_URL w) (slack_payload prDetails
               (join [0x0A] ([baseText comments, []] @ lines)))]
        \<and> payload_blocks (slack_payload prDetails (join [0x0A] ([baseText comments, []] @ lines))) =
            [Section (heading @ [0x3C] @ url prDetails @ [0x7C] @ title prDetails @ [0x3E]),
             Section (join [0x0A] ([baseText comments, []] @ lines))]
        \<and> length lines = min 5 (length comments)
        \<and> (\<forall>i<length lines. \<exists>b. body (comments ! i) = Some (JString b)
              \<and> lines ! i =
                  [0x2022, 0x20, 0x60] @ path (comments ! i) @ [0x3A]
                  @ numberToString w (line (comments ! i)) @ [0x60, 0x20, 0x2014, 0x20]
                  @ truncate (oneLineBody b) 200)"
    by blast
next
  assume "comments \<noteq> []"
  then show "\<exists>pre post. baseText comments =
           pre @ show_nat (length comments) @ post"
    by (rule baseText_count)
next
  show "decimal_val (show_nat (length comments)) = length comments"
    by (rule show_nat_decimal)
next
  fix t :: jsstring
  show "take 200 (truncate t 200) = take 200 t"
    by (rule truncate_take)
next
  fix t :: jsstring
  assume "length t \<le> 200"
  then show "truncate t 200 = t" by (rule truncate_short)
next
  fix t :: jsstring
  assume "200 < length t"
  then show "truncate t 200 = take 200 t @ ascii ''...''" by (rule truncate_long)
qed

text \<open>
  The claim as stated fails at the empty list, where the summary is a fixed sentence
  with no count in it (it has no digit at all), and a body of 201 characters comes out
  203 characters long.
\<close>

theorem notifySlack_count_counterexample:
  "fst (notifySlack quiet_env_part_000 example_pr_part_000 []) =
     [SlackPost (ascii ''https://hooks.slack.com/services/T0/B0/x'')
        (slack_payload example_pr_part_000 (baseText [] @ [0x0A]))]
   \<and> list_all (\<lambda>u. \<not> isDigit u) (baseText [])
   \<and> length (truncate (replicate 201 0x61) 200) = 203"
  by code_simp

theorem notifySlack_summary_witness:
  "\<exists>lines. fst (notifySlack quiet_env_part_000 example_pr_part_000 six_comments) =
      [SlackPost (ascii ''https://hooks.slack.com/services/T0/B0/x'')
         (slack_payload example_pr_part_000 (join [0x0A] ([baseText six_comments, []] @ lines)))]
     \<and> length lines = 5
     \<and> lines ! 1 = [0x2022, 0x20, 0x60] @ ascii ''App/Model.swift:12'' @ [0x60, 0x20, 0x2014, 0x20]
           @ replicate 100 0x61 @ [0x20] @ replicate 99 0x62 @ ascii ''...''"
proof -
  have url: "SLACK_WEBHOOK_URL quiet_env_part_000 = ascii ''https://hooks.slack.com/services/T0/B0/x''"
    by (simp add: quiet_env_part_000_def)
  have 1: "SLACK_WEBHOOK_URL quiet_env_part_000 \<noteq> []
        \<and> list_all (\<lambda>c. \<exists>b. body c = Some (JString b)) (take 5 six_comments)"
    by (simp add: quiet_env_part_000_def six_comments_def example_comment_def long_comment_def
        ascii_def)
  from notifySlack_summary [of quiet_env_part_000 example_pr_part_000 six_comments] 1
  obtain lines where
    post: "fst (notifySlack quiet_env_part_000 example_pr_part_000 six_comments) =
            [SlackPost (SLACK_WEBHOOK_URL quiet_env_part_000) (slack_payload example_pr_part_000
               (join [0x0A] ([baseText six_comments, []] @ lines)))]"
    and len: "length lines = min 5 (length six_comments)"
    and each: "\<forall>i<length lines. \<exists>b. body (six_comments ! i) = Some (JString b)
              \<and> lines ! i =
                  [0x2022, 0x20, 0x60] @ path (six_comments ! i) @ [0x3A]
                  @ numberToString quiet_env_part_000 (line (six_comments ! i)) @ [0x60, 0x20, 0x2014, 0x20]
                  @ truncate (oneLineBody b) 200"
    by blast
  have len5: "length lines = 5" using len by (simp add: six_comments_def)
  have second: "six_comments ! 1 = long_comment" by (simp add: six_comments_def)
  from len5 have "1 < length lines" by simp
  with each have "\<exists>b. body (six_comments ! 1) = Some (JString b)
              \<and> lines ! 1 =
                  [0x2022, 0x20, 0x60] @ path (six_comments ! 1) @ [0x3A]
                  @ numberToString quiet_env_part_000 (line (six_comments ! 1)) @ [0x60, 0x20, 0x2014, 0x20]
                  @ truncate (oneLineBody b) 200"
    by blast
  with second obtain b where
    b: "body long_comment = Some (JString b)"
    and l1: "lines ! 1 = [0x2022, 0x20, 0x60] @ path long_comment @ [0x3A]
                  @ numberToString quiet_env_part_000 (line long_comment) @ [0x60, 0x20, 0x2014, 0x20]
                  @ truncate (oneLineBody b) 200"
    by auto
  from b have b_eq: "b = replicate 100 0x61 @ [0x0A] @ replicate 149 0x62"
    by (simp add: long_comment_def)
  have cut: "truncate (oneLineBody (replicate 100 0x61 @ [0x0A] @ replicate 149 0x62)) 200
             = replicate 100 0x61 @ [0x20] @ replicate 99 0x62 @ ascii ''...''"
    by code_simp
  have label: "path long_comment @ [0x3A] @ numberToString quiet_env_part_000 (line long_comment)
               = ascii ''App/Model.swift:12''"
    by code_simp
  from l1 b_eq cut label have "lines ! 1 = [0x2022, 0x20, 0x60] @ ascii ''App/Model.swift:12'' @ [0x60, 0x20, 0x2014, 0x20]
           @ replicate 100 0x61 @ [0x20] @ replicate 99 0x62 @ ascii ''...''"
    by simp
  with post len5 url show ?thesis by auto
qed

text \<open>
  Claim C8 (no empty review). When \<open>analyzeCode\<close> returns no comment, \<open>main\<close> only made the
  model calls: \<^verbatim>\<open>createReviewComment\<close> is not invoked, and the run ends without an error.
\<close>

theorem main_creates_no_empty_review:
  assumes "getPRDetails w = Inr prDetails"
    and "fetch_diff w = Inr (Some diff)"
    and "analyzeCode (openai w) (filteredDiff w diff) prDetails = (sent, Inr [])"
  shows "main w = (map ChatCompletion sent, None)
       \<and> (\<forall>ow rp n cs. CreateReview ow rp n cs \<notin> set (fst (main w)))"
  using assms by (auto simp: main_def)

theorem main_creates_no_empty_review_witness:
  "main quiet_env =
     ([ChatCompletion (createPrompt example_file example_chunk example_pr),
       ChatCompletion (createPrompt example_file example_chunk example_pr)], None)"
proof -
  have 1: "getPRDetails quiet_env = Inr example_pr"
    by (simp add: quiet_env_def)
  have 2: "fetch_diff quiet_env = Inr (Some (ascii ''diff --git a/App/Model.swift b/App/Model.swift''))"
    by code_simp
  have f: "filteredDiff quiet_env (ascii ''diff --git a/App/Model.swift b/App/Model.swift'') = [example_file]"
    by (simp add: filteredDiff_def quiet_env_def)
  have m: "openai quiet_env = (\<lambda>n p. Message (Some (ascii ''{\"reviews\":[]}'')))"
    by (simp add: quiet_env_def)
  have 3: "analyzeCode (openai quiet_env)
             (filteredDiff quiet_env (ascii ''diff --git a/App/Model.swift b/App/Model.swift''))
             example_pr =
           ([createPrompt example_file example_chunk example_pr,
             createPrompt example_file example_chunk example_pr], Inr [])"
    unfolding f m by (rule analyze_quiet)
  from main_creates_no_empty_review [OF 1 2 3] show ?thesis by simp
qed





end
